theory Spec2Isabelle
  imports Complex_Main "HOL-Library.Sublist"
begin

section \<open>Python values\<close>

text \<open>
  A Python \<open>str\<close> is a sequence of Unicode code points and \<open>len\<close> counts code points,
  so a string is modelled as the list of its code points. \<open>lit\<close> embeds an ASCII literal.
\<close>

type_synonym pystr = "nat list"

definition lit :: "string \<Rightarrow> pystr" where
  "lit s = map of_char s"

text \<open>The values \<open>json.loads\<close> can return.\<close>

datatype json =
    JNull
  | JBool bool
  | JInt int
  | JFloat real
  | JStr pystr
  | JArr "json list"
  | JObj "(pystr \<times> json) list"

text \<open>
  Exceptions. \<open>ValueError\<close> carries its message. \<open>TypeError\<close> is what the interpreter
  raises when an operation meets an operand of the wrong type. \<open>ForeignError\<close> is an
  exception raised inside a collaborator (the chat model, \<open>json.loads\<close>), of whatever
  class, identified by a text that describes it.
  \<open>Exception e\<close> is the exception built in the handler of \<open>generate_tweet_thread\<close>,
  \<open>Exception(f"Failed to generate tweets: {str(e)}")\<close>: it is raised while \<open>e\<close> is being
  handled, so \<open>e\<close> is its context, and its message is a function of \<open>e\<close>.
\<close>

datatype exn =
    ValueError pystr
  | TypeError
  | KeyError
  | ForeignError pystr
  | Exception exn

text \<open>The slice \<open>xs[:n]\<close>; a negative \<open>n\<close> counts from the end.\<close>

definition slice_to :: "int \<Rightarrow> 'a list \<Rightarrow> 'a list" where
  "slice_to n xs = (if 0 \<le> n then take (nat n) xs else take (length xs - nat (- n)) xs)"

text \<open>\<open>str(n)\<close> for a non-negative integer, and for any integer.\<close>

fun str_nat :: "nat \<Rightarrow> pystr" where
  "str_nat n = (if n < 10 then [48 + n] else str_nat (n div 10) @ [48 + n mod 10])"

declare str_nat.simps [simp del]

definition str_int :: "int \<Rightarrow> pystr" where
  "str_int i = (if i < 0 then 45 # str_nat (nat (- i)) else str_nat (nat i))"

section \<open>Length validation and thread numbering\<close>

text \<open>\<open>validate_tweet_length(tweet, max_length=280)\<close>.\<close>

definition validate_tweet_length :: "pystr \<Rightarrow> nat \<Rightarrow> bool" where
  "validate_tweet_length tweet max_length = (length tweet \<le> max_length)"

text \<open>
  The body of the validation loop of \<open>generate_tweet_thread\<close>: a tweet that passes
  \<open>validate_tweet_length\<close> is appended as it is, any other as \<open>tweet[:277] + "..."\<close>.
\<close>

definition trim_tweet :: "pystr \<Rightarrow> pystr" where
  "trim_tweet tweet =
     (if validate_tweet_length tweet 280 then tweet else slice_to 277 tweet @ lit ''...'')"

text \<open>The prefix \<open>f"[{i}/{total}] "\<close> (\<open>ntotal\<close> stands for the source's \<open>total\<close>).\<close>

definition thread_number :: "nat \<Rightarrow> nat \<Rightarrow> pystr" where
  "thread_number i ntotal = lit ''['' @ str_nat i @ lit ''/'' @ str_nat ntotal @ lit ''] ''"

text \<open>The body of the loop of \<open>add_thread_numbering\<close>, for the tweet at position \<open>i\<close>.\<close>

definition number_tweet :: "nat \<Rightarrow> nat \<Rightarrow> pystr \<Rightarrow> pystr" where
  "number_tweet ntotal i tweet =
     (if length (thread_number i ntotal @ tweet) \<le> 280 then thread_number i ntotal @ tweet
      else (let max_tweet_length = 280 - int (length (thread_number i ntotal));
                trimmed_tweet = slice_to (max_tweet_length - 3) tweet @ lit ''...''
            in thread_number i ntotal @ trimmed_tweet))"

text \<open>
  \<open>add_thread_numbering(tweets)\<close>: the loop runs over \<open>enumerate(tweets, 1)\<close> and appends
  one numbered tweet per step.
\<close>

definition add_thread_numbering :: "pystr list \<Rightarrow> pystr list" where
  "add_thread_numbering tweets =
     (let ntotal = length tweets
      in map (\<lambda>(i, tweet). number_tweet ntotal i tweet) (enumerate 1 tweets))"

text \<open>
  The constraint enforcement of \<open>generate_tweet_thread\<close> on a list of strings: the
  validation loop, the numbering \<open>if add_numbering and len(valid_tweets) > 1\<close>, and the
  cut \<open>valid_tweets[:max_tweets]\<close> taken \<open>if len(valid_tweets) > max_tweets\<close>.
  \<open>numbered\<close> is the list before the cut.
\<close>

definition numbered :: "pystr list \<Rightarrow> bool \<Rightarrow> pystr list" where
  "numbered tweets add_numbering =
     (let valid_tweets = map trim_tweet tweets
      in if add_numbering \<and> length valid_tweets > 1 then add_thread_numbering valid_tweets
         else valid_tweets)"

definition enforce :: "pystr list \<Rightarrow> bool \<Rightarrow> int \<Rightarrow> pystr list" where
  "enforce tweets add_numbering max_tweets =
     (let valid_tweets = numbered tweets add_numbering
      in if int (length valid_tweets) > max_tweets then slice_to max_tweets valid_tweets
         else valid_tweets)"

text \<open>
  The largest number of elements a Python list can have on a 64-bit build
  (\<open>sys.maxsize\<close>).
\<close>

definition PY_SSIZE_T_MAX :: nat where
  "PY_SSIZE_T_MAX = 2 ^ 63 - 1"

section \<open>Enforcement on decoded values\<close>

text \<open>
  \<open>parse_tweet_response\<close> returns whatever list \<open>json.loads\<close> produced, so the loops of
  \<open>generate_tweet_thread\<close> can meet elements that are not strings. \<open>len\<close> is defined on
  strings, lists and dicts only; \<open>tweet[:277] + "..."\<close> and \<open>thread_number + tweet\<close> are
  defined on strings only (the slice of a dict raises \<open>TypeError\<close>, \<open>KeyError\<close> from
  Python 3.12 on; the model does not tell them apart). \<open>JObj\<close> lists the items of a dict.
\<close>

fun py_len :: "json \<Rightarrow> exn + nat" where
  "py_len (JStr s) = Inr (length s)"
| "py_len (JArr xs) = Inr (length xs)"
| "py_len (JObj kvs) = Inr (length kvs)"
| "py_len v = Inl TypeError"

fun trim_value :: "json \<Rightarrow> exn + json" where
  "trim_value (JStr tweet) = Inr (JStr (trim_tweet tweet))"
| "trim_value v =
     (case py_len v of
        Inl e \<Rightarrow> Inl e
      | Inr n \<Rightarrow> if n \<le> 280 then Inr v else Inl TypeError)"

fun number_value :: "nat \<Rightarrow> nat \<Rightarrow> json \<Rightarrow> exn + json" where
  "number_value ntotal i (JStr tweet) = Inr (JStr (number_tweet ntotal i tweet))"
| "number_value ntotal i v = Inl TypeError"

text \<open>A loop that appends one result per element and stops at the first exception.\<close>

fun traverse :: "('a \<Rightarrow> exn + 'b) \<Rightarrow> 'a list \<Rightarrow> exn + 'b list" where
  "traverse f [] = Inr []"
| "traverse f (x # xs) =
     (case f x of
        Inl e \<Rightarrow> Inl e
      | Inr y \<Rightarrow> (case traverse f xs of Inl e \<Rightarrow> Inl e | Inr ys \<Rightarrow> Inr (y # ys)))"

definition add_thread_numbering_values :: "json list \<Rightarrow> exn + json list" where
  "add_thread_numbering_values tweets =
     (let ntotal = length tweets
      in traverse (\<lambda>(i, tweet). number_value ntotal i tweet) (enumerate 1 tweets))"

definition enforce_values :: "json list \<Rightarrow> bool \<Rightarrow> int \<Rightarrow> exn + json list" where
  "enforce_values tweets add_numbering max_tweets =
     (case traverse trim_value tweets of
        Inl e \<Rightarrow> Inl e
      | Inr valid_tweets \<Rightarrow>
          (case (if add_numbering \<and> length valid_tweets > 1
                 then add_thread_numbering_values valid_tweets else Inr valid_tweets) of
             Inl e \<Rightarrow> Inl e
           | Inr valid_tweets \<Rightarrow>
               Inr (if int (length valid_tweets) > max_tweets
                    then slice_to max_tweets valid_tweets else valid_tweets)))"

section \<open>The response parser\<close>

text \<open>
  The pattern of \<open>re.search(r'\[.*\]', response_text, re.DOTALL)\<close> is a sequence of
  three atoms: the literal \<open>[\<close>, a greedy \<open>.*\<close> that under \<open>DOTALL\<close> matches any character,
  and the literal \<open>]\<close>. \<open>match_here\<close> is the backtracking matcher anchored at the start
  of the text; it returns the length of the match. A greedy star first takes one more
  character and only when the rest cannot match gives the character back.
  \<open>re_search\<close> tries the start positions from left to right and returns \<open>group(0)\<close>.
\<close>

datatype atom = Lit nat | AnyStar

fun match_here :: "atom list \<Rightarrow> pystr \<Rightarrow> nat option" where
  "match_here [] s = Some 0"
| "match_here (Lit c # p) [] = None"
| "match_here (Lit c # p) (x # s) = (if x = c then map_option Suc (match_here p s) else None)"
| "match_here (AnyStar # p) [] = match_here p []"
| "match_here (AnyStar # p) (x # s) =
     (case match_here (AnyStar # p) s of
        Some n \<Rightarrow> Some (Suc n)
      | None \<Rightarrow> match_here p (x # s))"

fun re_search :: "atom list \<Rightarrow> pystr \<Rightarrow> pystr option" where
  "re_search p [] = (case match_here p [] of Some n \<Rightarrow> Some [] | None \<Rightarrow> None)"
| "re_search p (x # s) =
     (case match_here p (x # s) of
        Some n \<Rightarrow> Some (take n (x # s))
      | None \<Rightarrow> re_search p s)"

definition bracket_pattern :: "atom list" where
  "bracket_pattern = [Lit 91, AnyStar, Lit 93]"

text \<open>
  The outcomes of \<open>json.loads\<close>, which is a parameter of the parser: a decoded value;
  \<open>JSONDecodeError\<close>, the exception the parser catches; or another exception, which the
  parser does not catch (\<open>int\<close> refuses a literal of more than 4300 digits with a plain
  \<open>ValueError\<close>, deep nesting ends in \<open>RecursionError\<close>). \<open>Raises\<close> carries the text that
  describes it.
\<close>

datatype decoded = Decoded json | JSONDecodeError | Raises pystr

definition parse_error :: exn where
  "parse_error = ValueError (lit ''Could not parse tweets from LLM response'')"

text \<open>
  The second half of \<open>parse_tweet_response\<close>: the search for the pattern, the decoding of
  the match, and the final \<open>raise\<close>.
\<close>

definition parse_match :: "(pystr \<Rightarrow> decoded) \<Rightarrow> pystr \<Rightarrow> exn + json list" where
  "parse_match loads response_text =
     (case re_search bracket_pattern response_text of
        None \<Rightarrow> Inl parse_error
      | Some group0 \<Rightarrow>
          (case loads group0 of
             Raises e \<Rightarrow> Inl (ForeignError e)
           | JSONDecodeError \<Rightarrow> Inl parse_error
           | Decoded (JArr tweets) \<Rightarrow> Inr tweets
           | Decoded v \<Rightarrow> Inl parse_error))"

text \<open>
  \<open>parse_tweet_response\<close>: the direct decoding first; \<open>except json.JSONDecodeError: pass\<close>
  and a decoded value that is no list both lead on to the pattern.
\<close>

definition parse_tweet_response :: "(pystr \<Rightarrow> decoded) \<Rightarrow> pystr \<Rightarrow> exn + json list" where
  "parse_tweet_response loads response_text =
     (case loads response_text of
        Raises e \<Rightarrow> Inl (ForeignError e)
      | JSONDecodeError \<Rightarrow> parse_match loads response_text
      | Decoded (JArr tweets) \<Rightarrow> Inr tweets
      | Decoded v \<Rightarrow> parse_match loads response_text)"

text \<open>
  The second attempt in the words of the specification: the part of the text from its
  first \<open>[\<close> to its last \<open>]\<close>, when the last \<open>]\<close> stands after the first \<open>[\<close>.
\<close>

definition upto_last :: "nat \<Rightarrow> pystr \<Rightarrow> pystr" where
  "upto_last c s = rev (dropWhile (\<lambda>x. x \<noteq> c) (rev s))"

definition bracket_span :: "pystr \<Rightarrow> pystr option" where
  "bracket_span s =
     (case dropWhile (\<lambda>x. x \<noteq> 91) s of
        [] \<Rightarrow> None
      | x # r \<Rightarrow> if 93 \<in> set r then Some (x # upto_last 93 r) else None)"

text \<open>
  A decoder for one fragment of JSON, to run the parser on concrete texts. The
  fragment is: an array of strings that contain no escape sequence, with JSON's
  whitespace around the tokens; and a text that starts with an integer literal, that
  is with digits of which the first is not \<open>0\<close>, not followed by \<open>.\<close>, \<open>e\<close> or \<open>E\<close>. On the
  fragment it does what \<open>json.loads\<close> does: a literal of more than 4300 digits
  (\<open>sys.int_max_str_digits\<close>) raises the \<open>ValueError\<close> of the conversion as soon as the
  literal has been read, a shorter one is decoded when nothing but whitespace follows
  it. On every other text it reports \<open>JSONDecodeError\<close>, whatever \<open>json.loads\<close> does
  there.
\<close>

datatype scan =
    Start | Opened | InString pystr | AfterString | AfterComma | Closed
  | InInt nat nat | AfterInt nat

definition json_ws :: "nat \<Rightarrow> bool" where
  "json_ws c = (c = 32 \<or> c = 9 \<or> c = 10 \<or> c = 13)"

definition digit_limit_error :: pystr where
  "digit_limit_error = lit ''ValueError: Exceeds the limit for integer string conversion''"

text \<open>The end of an integer literal of \<open>k\<close> digits and value \<open>v\<close>.\<close>

definition int_literal :: "nat \<Rightarrow> nat \<Rightarrow> decoded \<Rightarrow> decoded" where
  "int_literal k v rest = (if 4300 < k then Raises digit_limit_error else rest)"

fun scan_json :: "scan \<Rightarrow> pystr list \<Rightarrow> pystr \<Rightarrow> decoded" where
  "scan_json Closed acc [] = Decoded (JArr (map JStr acc))"
| "scan_json (InInt k v) acc [] = int_literal k v (Decoded (JInt (int v)))"
| "scan_json (AfterInt v) acc [] = Decoded (JInt (int v))"
| "scan_json q acc [] = JSONDecodeError"
| "scan_json Start acc (c # s) =
     (if json_ws c then scan_json Start acc s
      else if c = 91 then scan_json Opened acc s
      else if 49 \<le> c \<and> c \<le> 57 then scan_json (InInt 1 (c - 48)) acc s
      else JSONDecodeError)"
| "scan_json Opened acc (c # s) =
     (if json_ws c then scan_json Opened acc s
      else if c = 34 then scan_json (InString []) acc s
      else if c = 93 then scan_json Closed acc s else JSONDecodeError)"
| "scan_json (InString t) acc (c # s) =
     (if c = 34 then scan_json AfterString (acc @ [t]) s
      else if c = 92 \<or> c < 32 then JSONDecodeError
      else scan_json (InString (t @ [c])) acc s)"
| "scan_json AfterString acc (c # s) =
     (if json_ws c then scan_json AfterString acc s
      else if c = 44 then scan_json AfterComma acc s
      else if c = 93 then scan_json Closed acc s else JSONDecodeError)"
| "scan_json AfterComma acc (c # s) =
     (if json_ws c then scan_json AfterComma acc s
      else if c = 34 then scan_json (InString []) acc s else JSONDecodeError)"
| "scan_json Closed acc (c # s) =
     (if json_ws c then scan_json Closed acc s else JSONDecodeError)"
| "scan_json (InInt k v) acc (c # s) =
     (if 48 \<le> c \<and> c \<le> 57 then scan_json (InInt (Suc k) (10 * v + (c - 48))) acc s
      else if c = 46 \<or> c = 101 \<or> c = 69 then JSONDecodeError
      else int_literal k v
             (if json_ws c then scan_json (AfterInt v) acc s else JSONDecodeError))"
| "scan_json (AfterInt v) acc (c # s) =
     (if json_ws c then scan_json (AfterInt v) acc s else JSONDecodeError)"

definition loads_fragment :: "pystr \<Rightarrow> decoded" where
  "loads_fragment s = scan_json Start [] s"

section \<open>The prompt templates\<close>

text \<open>
  \<open>str.strip()\<close> removes the characters for which \<open>str.isspace()\<close> holds from both ends.
  \<open>str.lower()\<close> is modelled on ASCII and on the one code point outside ASCII whose
  lower case is an ASCII letter (KELVIN SIGN, lower case \<open>k\<close>); it keeps every other
  code point, where Python yields code points outside ASCII. The result is only
  compared with the ASCII keys of \<open>TWEET_PROMPTS\<close>, which this does not change.
\<close>

definition isspace :: "nat \<Rightarrow> bool" where
  "isspace c =
     ((9 \<le> c \<and> c \<le> 13) \<or> (28 \<le> c \<and> c \<le> 32) \<or> c = 133 \<or> c = 160 \<or> c = 5760
      \<or> (8192 \<le> c \<and> c \<le> 8202) \<or> c = 8232 \<or> c = 8233 \<or> c = 8239 \<or> c = 8287
      \<or> c = 12288)"

definition strip :: "pystr \<Rightarrow> pystr" where
  "strip s = rev (dropWhile isspace (rev (dropWhile isspace s)))"

definition lower_char :: "nat \<Rightarrow> nat" where
  "lower_char c = (if 65 \<le> c \<and> c \<le> 90 then c + 32 else if c = 8490 then 107 else c)"

definition lower :: "pystr \<Rightarrow> pystr" where
  "lower s = map lower_char s"

definition professional_prompt :: pystr where
  "professional_prompt = lit
     (''You are a professional social media strategist. Create a professional and informative tweet thread.\<newline>'' @
      ''\<newline>'' @
      ''Rules:\<newline>'' @
      ''- Each tweet must be EXACTLY under 280 characters\<newline>'' @
      ''- Create {tweet_count} tweets that flow naturally\<newline>'' @
      ''- Use clear, professional language\<newline>'' @
      ''- Focus on providing value and insights\<newline>'' @
      ''- Add relevant hashtags only in the last tweet\<newline>'' @
      ''- Return ONLY a valid JSON array of strings, nothing else\<newline>'' @
      ''\<newline>'' @
      ''Topic: {topic}\<newline>'' @
      ''\<newline>'' @
      ''Return format: [\"Tweet 1 text here\", \"Tweet 2 text here\", ...]'')"

definition casual_prompt :: pystr where
  "casual_prompt = lit
     (''You are a friendly social media content creator. Create a casual and conversational tweet thread.\<newline>'' @
      ''\<newline>'' @
      ''Rules:\<newline>'' @
      ''- Each tweet must be EXACTLY under 280 characters\<newline>'' @
      ''- Create {tweet_count} tweets that flow naturally\<newline>'' @
      ''- Use friendly, conversational tone\<newline>'' @
      ''- Include personal touches and relatability\<newline>'' @
      ''- Add appropriate emojis sparingly (1-2 per tweet max)\<newline>'' @
      ''- Return ONLY a valid JSON array of strings, nothing else\<newline>'' @
      ''\<newline>'' @
      ''Topic: {topic}\<newline>'' @
      ''\<newline>'' @
      ''Return format: [\"Tweet 1 text here\", \"Tweet 2 text here\", ...]'')"

definition humorous_prompt :: pystr where
  "humorous_prompt = lit
     (''You are a witty social media personality. Create an entertaining and humorous tweet thread.\<newline>'' @
      ''\<newline>'' @
      ''Rules:\<newline>'' @
      ''- Each tweet must be EXACTLY under 280 characters\<newline>'' @
      ''- Create {tweet_count} tweets that flow naturally\<newline>'' @
      ''- Use humor, wit, and clever observations\<newline>'' @
      ''- Keep it lighthearted but informative\<newline>'' @
      ''- Add relevant emojis to enhance humor\<newline>'' @
      ''- Return ONLY a valid JSON array of strings, nothing else\<newline>'' @
      ''\<newline>'' @
      ''Topic: {topic}\<newline>'' @
      ''\<newline>'' @
      ''Return format: [\"Tweet 1 text here\", \"Tweet 2 text here\", ...]'')"

definition engaging_prompt :: pystr where
  "engaging_prompt = lit
     (''You are a social media expert specializing in engagement. Create a highly engaging tweet thread.\<newline>'' @
      ''\<newline>'' @
      ''Rules:\<newline>'' @
      ''- Each tweet must be EXACTLY under 280 characters\<newline>'' @
      ''- Create {tweet_count} tweets that flow naturally\<newline>'' @
      ''- Use hooks, curiosity gaps, and strong conclusions\<newline>'' @
      ''- Make it shareable and thought-provoking\<newline>'' @
      ''- Include strategic emojis for emphasis\<newline>'' @
      ''- Return ONLY a valid JSON array of strings, nothing else\<newline>'' @
      ''\<newline>'' @
      ''Topic: {topic}\<newline>'' @
      ''\<newline>'' @
      ''Return format: [\"Tweet 1 text here\", \"Tweet 2 text here\", ...]'')"

definition educational_prompt :: pystr where
  "educational_prompt = lit
     (''You are an educational content creator. Create an informative and educational tweet thread.\<newline>'' @
      ''\<newline>'' @
      ''Rules:\<newline>'' @
      ''- Each tweet must be EXACTLY under 280 characters\<newline>'' @
      ''- Create {tweet_count} tweets that flow naturally\<newline>'' @
      ''- Break down complex topics into simple explanations\<newline>'' @
      ''- Use clear examples and analogies\<newline>'' @
      ''- End with key takeaways or action items\<newline>'' @
      ''- Return ONLY a valid JSON array of strings, nothing else\<newline>'' @
      ''\<newline>'' @
      ''Topic: {topic}\<newline>'' @
      ''\<newline>'' @
      ''Return format: [\"Tweet 1 text here\", \"Tweet 2 text here\", ...]'')"

text \<open>The dict \<open>TWEET_PROMPTS\<close>, in the order of its literal.\<close>

definition TWEET_PROMPTS :: "(pystr \<times> pystr) list" where
  "TWEET_PROMPTS =
     [(lit ''professional'', professional_prompt),
      (lit ''casual'', casual_prompt),
      (lit ''humorous'', humorous_prompt),
      (lit ''engaging'', engaging_prompt),
      (lit ''educational'', educational_prompt)]"

text \<open>
  The tone resolution of \<open>generate_tweet_thread\<close>:
  \<open>tone = tone.lower() if tone else "engaging"\<close>, then \<open>"engaging"\<close> again when the
  result is not a key, and the subscript \<open>TWEET_PROMPTS[tone]\<close>, which raises
  \<open>KeyError\<close> on a missing key. \<open>None\<close> and the empty string are both false.
\<close>

definition resolve_tone :: "pystr option \<Rightarrow> pystr" where
  "resolve_tone tone =
     (let tone1 = (case tone of None \<Rightarrow> lit ''engaging''
                   | Some t \<Rightarrow> if t = [] then lit ''engaging'' else lower t)
      in if tone1 \<notin> set (map fst TWEET_PROMPTS) then lit ''engaging'' else tone1)"

definition lookup :: "pystr option \<Rightarrow> exn + pystr" where
  "lookup tone =
     (case map_of TWEET_PROMPTS (resolve_tone tone) of
        None \<Rightarrow> Inl KeyError
      | Some prompt_template \<Rightarrow> Inr prompt_template)"

text \<open>
  \<open>str.format\<close> with keyword arguments, for format strings made of text and plain named
  fields, which is what the five templates are (no doubled braces, no conversion, no
  format specification). A field is open while the second argument is \<open>Some\<close> of the
  name read so far. An unknown name raises \<open>KeyError\<close>, an unmatched brace \<open>ValueError\<close>.
\<close>

fun format_scan :: "(pystr \<times> pystr) list \<Rightarrow> pystr option \<Rightarrow> pystr \<Rightarrow> exn + pystr" where
  "format_scan kw None [] = Inr []"
| "format_scan kw (Some f) [] = Inl (ValueError (lit ''expected } before end of string''))"
| "format_scan kw None (c # s) =
     (if c = 123 then format_scan kw (Some []) s
      else if c = 125 then Inl (ValueError (lit ''Single } encountered in format string''))
      else (case format_scan kw None s of Inl e \<Rightarrow> Inl e | Inr r \<Rightarrow> Inr (c # r)))"
| "format_scan kw (Some f) (c # s) =
     (if c = 125 then
        (case map_of kw f of
           None \<Rightarrow> Inl KeyError
         | Some v \<Rightarrow> (case format_scan kw None s of Inl e \<Rightarrow> Inl e | Inr r \<Rightarrow> Inr (v @ r)))
      else format_scan kw (Some (f @ [c])) s)"

definition str_format :: "pystr \<Rightarrow> (pystr \<times> pystr) list \<Rightarrow> exn + pystr" where
  "str_format template kw = format_scan kw None template"

text \<open>
  The field names of a format string, read as \<open>format_scan\<close> reads it; \<open>None\<close> when a
  brace is unmatched.
\<close>

fun scan_fields :: "pystr option \<Rightarrow> pystr \<Rightarrow> pystr list option" where
  "scan_fields None [] = Some []"
| "scan_fields (Some f) [] = None"
| "scan_fields None (c # s) =
     (if c = 123 then scan_fields (Some []) s
      else if c = 125 then None else scan_fields None s)"
| "scan_fields (Some f) (c # s) =
     (if c = 125 then map_option ((#) f) (scan_fields None s)
      else scan_fields (Some (f @ [c])) s)"

section \<open>The orchestrator\<close>

text \<open>
  The collaborators of \<open>generate_tweet_thread\<close>: LangChain's \<open>init_chat_model\<close> (model
  name, provider, temperature, token limit), the \<open>invoke\<close> of the model it returns,
  reduced to the text of the reply, and \<open>json.loads\<close>. A model collaborator that raises
  returns \<open>Inl\<close> of the text that describes the exception. \<open>get_chat_model\<close> also copies the API key into
  the process environment, which is left out.
\<close>

datatype message = SystemMessage pystr | HumanMessage pystr

record 'm collaborators =
  init_chat_model :: "pystr \<Rightarrow> pystr \<Rightarrow> real \<Rightarrow> nat \<Rightarrow> pystr + 'm"
  invoke :: "'m \<Rightarrow> message list \<Rightarrow> pystr + pystr"
  json_loads :: "pystr \<Rightarrow> decoded"

definition get_chat_model :: "'m collaborators \<Rightarrow> real \<Rightarrow> pystr + 'm" where
  "get_chat_model c temperature =
     init_chat_model c (lit ''gpt-4o-mini'') (lit ''openai'') temperature 1000"

text \<open>
  The calls made to the model collaborator, in order, and the reply received:
  a run returns its result together with this trace.
\<close>

datatype event = ModelRequested real | ModelInvoked "message list" | ModelReplied pystr

text \<open>The dictionary that \<open>generate_tweet_thread\<close> returns.\<close>

record generation_result =
  res_tweets :: "json list"
  res_tweet_count :: nat
  res_tone :: pystr
  res_topic :: pystr

text \<open>
  The body of the \<open>try\<close> block: the messages, the call of the model, the parser, the
  enforcement and the result. It returns the exception that reaches the handler, or
  the result.
\<close>

definition try_body ::
  "'m collaborators \<Rightarrow> 'm \<Rightarrow> pystr \<Rightarrow> pystr \<Rightarrow> pystr \<Rightarrow> int \<Rightarrow> bool
     \<Rightarrow> (exn + generation_result) \<times> event list" where
  "try_body c model tone1 prompt_template topic max_tweets add_numbering =
     (case str_format prompt_template
             [(lit ''topic'', topic), (lit ''tweet_count'', str_int max_tweets)] of
        Inl e \<Rightarrow> (Inl e, [])
      | Inr content \<Rightarrow>
          (let messages =
                 [SystemMessage content,
                  HumanMessage (lit ''Generate a '' @ str_int max_tweets
                                @ lit ''-tweet thread about: '' @ topic)]
           in case invoke c model messages of
                Inl e \<Rightarrow> (Inl (ForeignError e), [ModelInvoked messages])
              | Inr response_text \<Rightarrow>
                  (case parse_tweet_response (json_loads c) response_text of
                     Inl e \<Rightarrow> (Inl e, [ModelInvoked messages, ModelReplied response_text])
                   | Inr tweets \<Rightarrow>
                       (case enforce_values tweets add_numbering max_tweets of
                          Inl e \<Rightarrow> (Inl e, [ModelInvoked messages, ModelReplied response_text])
                        | Inr valid_tweets \<Rightarrow>
                            (Inr \<lparr>res_tweets = valid_tweets,
                                  res_tweet_count = length valid_tweets,
                                  res_tone = tone1,
                                  res_topic = topic\<rparr>,
                             [ModelInvoked messages, ModelReplied response_text])))))"

text \<open>
  \<open>generate_tweet_thread\<close>: the two input checks, the template, the model, and the
  \<open>try\<close> block whose handler turns every exception \<open>e\<close> into \<open>Exception e\<close>.
\<close>

definition topic_error :: exn where
  "topic_error = ValueError (lit ''Topic must be at least 10 characters long'')"

definition max_tweets_error :: exn where
  "max_tweets_error = ValueError (lit ''max_tweets must be between 1 and 20'')"

definition generate_tweet_thread ::
  "'m collaborators \<Rightarrow> pystr \<Rightarrow> pystr option \<Rightarrow> int \<Rightarrow> bool \<Rightarrow> real
     \<Rightarrow> (exn + generation_result) \<times> event list" where
  "generate_tweet_thread c topic tone max_tweets add_numbering temperature =
     (if topic = [] \<or> length (strip topic) < 10 then (Inl topic_error, [])
      else if max_tweets < 1 \<or> max_tweets > 20 then (Inl max_tweets_error, [])
      else
        (case lookup tone of
           Inl e \<Rightarrow> (Inl e, [])
         | Inr prompt_template \<Rightarrow>
             (case get_chat_model c temperature of
                Inl e \<Rightarrow> (Inl (ForeignError e), [ModelRequested temperature])
              | Inr model \<Rightarrow>
                  (case try_body c model (resolve_tone tone) prompt_template topic
                          max_tweets add_numbering of
                     (Inl e, trace) \<Rightarrow> (Inl (Exception e), ModelRequested temperature # trace)
                   | (Inr r, trace) \<Rightarrow> (Inr r, ModelRequested temperature # trace)))))"

text \<open>The two kinds of exception that the specification lets cross the boundary.\<close>

fun validation_error :: "exn \<Rightarrow> bool" where
  "validation_error (ValueError msg) = True"
| "validation_error e = False"

fun generation_failure :: "exn \<Rightarrow> bool" where
  "generation_failure (Exception cause) = True"
| "generation_failure e = False"

text \<open>
  Collaborators for concrete runs: \<open>init_chat_model\<close> returns \<open>built\<close> and the model
  answers every prompt with \<open>reply\<close>, whatever the arguments; the decoder is the one for
  the fragment.
\<close>

definition stub :: "pystr + unit \<Rightarrow> pystr + pystr \<Rightarrow> unit collaborators" where
  "stub built reply =
     \<lparr>init_chat_model = (\<lambda>name provider temperature max_tokens. built),
      invoke = (\<lambda>model messages. reply),
      json_loads = loads_fragment\<rparr>"

section \<open>The length clamp\<close>

lemma length_lit [simp]: "length (lit s) = length s"
  by (simp add: lit_def)

lemma trim_tweet_short: "length t \<le> 280 \<Longrightarrow> trim_tweet t = t"
  by (simp add: trim_tweet_def validate_tweet_length_def)

lemma trim_tweet_long:
  "280 < length t \<Longrightarrow> trim_tweet t = take 277 t @ lit ''...''"
  by (simp add: trim_tweet_def validate_tweet_length_def slice_to_def)

lemma length_trim_tweet_long: "280 < length t \<Longrightarrow> length (trim_tweet t) = 280"
  by (simp add: trim_tweet_long)

lemma length_trim_tweet: "length (trim_tweet t) \<le> 280"
  by (cases "length t \<le> 280") (simp_all add: trim_tweet_short length_trim_tweet_long)

lemma enforce_no_numbering:
  "0 \<le> n \<Longrightarrow> enforce ts False n = take (nat n) (map trim_tweet ts)"
  by (simp add: enforce_def numbered_def slice_to_def Let_def)



section \<open>Numbering, the cut and idempotence\<close>

lemma length_str_nat_bound: "1 \<le> k \<Longrightarrow> n < 10 ^ k \<Longrightarrow> length (str_nat n) \<le> k"
proof (induction n arbitrary: k rule: str_nat.induct)
  case (1 n)
  show ?case
  proof (cases "n < 10")
    case True
    with "1.prems" show ?thesis by (simp add: str_nat.simps)
  next
    case False
    with "1.prems" have k2: "2 \<le> k"
      by (cases k; cases "k - 1") auto
    then obtain j where j: "k = Suc j" "1 \<le> j"
      by (cases k) auto
    from "1.prems" j have "n div 10 < 10 ^ j"
      by (simp add: less_mult_imp_div_less mult.commute)
    with "1.IH" [OF False j(2)] have "length (str_nat (n div 10)) \<le> j" .
    with False j show ?thesis by (subst str_nat.simps) simp
  qed
qed

lemma length_str_nat_ssize: "n \<le> PY_SSIZE_T_MAX \<Longrightarrow> length (str_nat n) \<le> 19"
  by (rule length_str_nat_bound) (simp_all add: PY_SSIZE_T_MAX_def)

lemma length_thread_number:
  "length (thread_number i n) = 4 + length (str_nat i) + length (str_nat n)"
  by (simp add: thread_number_def)

lemma length_thread_number_bound:
  "i \<le> PY_SSIZE_T_MAX \<Longrightarrow> n \<le> PY_SSIZE_T_MAX \<Longrightarrow> length (thread_number i n) \<le> 42"
  using length_str_nat_ssize [of i] length_str_nat_ssize [of n]
  by (simp add: length_thread_number)

lemma number_tweet_fits:
  "length (thread_number i n @ t) \<le> 280 \<Longrightarrow> number_tweet n i t = thread_number i n @ t"
  by (simp add: number_tweet_def)

lemma number_tweet_retrim:
  assumes "280 < length (thread_number i n @ t)" and "length (thread_number i n) \<le> 277"
  shows "number_tweet n i t =
           thread_number i n @ take (280 - length (thread_number i n) - 3) t @ lit ''...''"
proof -
  have "nat (280 - int (length (thread_number i n)) - 3) = 280 - length (thread_number i n) - 3"
    by simp
  with assms show ?thesis
    by (simp add: number_tweet_def slice_to_def Let_def)
qed

lemma length_number_tweet_retrim:
  assumes "280 < length (thread_number i n @ t)" and "length (thread_number i n) \<le> 277"
  shows "length (number_tweet n i t) = 280"
  using assms by (simp add: number_tweet_retrim)

lemma length_number_tweet:
  "length (thread_number i n) \<le> 277 \<Longrightarrow> length (number_tweet n i t) \<le> 280"
  by (cases "length (thread_number i n @ t) \<le> 280")
     (simp_all add: number_tweet_fits length_number_tweet_retrim del: length_append)

lemma prefix_number_tweet: "prefix (thread_number i n) (number_tweet n i t)"
  by (simp add: number_tweet_def Let_def)

lemma length_add_thread_numbering [simp]: "length (add_thread_numbering ts) = length ts"
  by (simp add: add_thread_numbering_def)

lemma nth_add_thread_numbering:
  "i < length ts \<Longrightarrow> add_thread_numbering ts ! i = number_tweet (length ts) (Suc i) (ts ! i)"
  by (simp add: add_thread_numbering_def nth_enumerate_eq)

lemma length_numbered [simp]: "length (numbered ts b) = length ts"
  by (simp add: numbered_def Let_def)

lemma numbered_off: "\<not> (b \<and> 1 < length ts) \<Longrightarrow> numbered ts b = map trim_tweet ts"
  by (auto simp add: numbered_def Let_def)

lemma nth_numbered_on:
  "b \<Longrightarrow> 1 < length ts \<Longrightarrow> i < length ts \<Longrightarrow>
   numbered ts b ! i = number_tweet (length ts) (Suc i) (trim_tweet (ts ! i))"
  by (simp add: numbered_def nth_add_thread_numbering Let_def)


lemma set_slice_to: "set (slice_to n xs) \<subseteq> set xs"
  by (simp add: slice_to_def set_take_subset)

lemma length_numbered_elems:
  assumes "length ts \<le> PY_SSIZE_T_MAX" and "t \<in> set (numbered ts b)"
  shows "length t \<le> 280"
proof -
  from assms(2) obtain i where i: "i < length ts" "t = numbered ts b ! i"
    by (metis in_set_conv_nth length_numbered)
  show ?thesis
  proof (cases "b \<and> 1 < length ts")
    case True
    from i assms(1) have "length (thread_number (Suc i) (length ts)) \<le> 42"
      by (intro length_thread_number_bound) simp_all
    then have "length (number_tweet (length ts) (Suc i) (trim_tweet (ts ! i))) \<le> 280"
      by (intro length_number_tweet) simp
    with True i show ?thesis by (simp add: nth_numbered_on)
  next
    case False
    with i show ?thesis by (simp add: numbered_off length_trim_tweet)
  qed
qed

lemma enforce_cut:
  "enforce ts b n = (if n < int (length ts) then slice_to n (numbered ts b) else numbered ts b)"
  by (simp add: enforce_def Let_def)

lemma length_enforce_elems:
  "length ts \<le> PY_SSIZE_T_MAX \<Longrightarrow> t \<in> set (enforce ts b n) \<Longrightarrow> length t \<le> 280"
  using set_slice_to [of n "numbered ts b"] length_numbered_elems [of ts t b]
  by (auto simp add: enforce_cut split: if_splits)

lemma enforce_fixed:
  assumes "\<not> (b \<and> 1 < length ys)" and "int (length ys) \<le> n"
    and "\<forall>t \<in> set ys. length t \<le> 280"
  shows "enforce ys b n = ys"
proof -
  from assms(3) have "map trim_tweet ys = ys"
    by (simp add: map_idI trim_tweet_short)
  with assms(1,2) show ?thesis
    by (simp add: enforce_cut numbered_off)
qed

text \<open>
  C3. Numbering is applied only when \<open>add_numbering\<close> holds and the clamped list has
  more than one element. When it is applied to a list that a Python list can hold, the
  tweet at position \<open>i + 1\<close> of \<open>length ts\<close> gets the prefix \<open>[i+1/length ts] \<close>; when the
  prefixed tweet would exceed 280 characters, the clamped body is cut to
  \<open>280 - len(prefix) - 3\<close> characters and followed by \<open>...\<close>, which gives exactly 280
  characters; every numbered tweet has at most 280 characters. The cut to \<open>max_tweets\<close>
  comes after the numbering. Two short tweets become \<open>[1/2] short1\<close> and \<open>[2/2] short2\<close>;
  a single tweet gets no prefix.
\<close>

theorem numbering_step:
  "(\<not> (b \<and> 1 < length ts) \<longrightarrow> numbered ts b = map trim_tweet ts)
   \<and> (b \<and> 1 < length ts \<and> length ts \<le> PY_SSIZE_T_MAX \<longrightarrow>
        length (numbered ts b) = length ts
        \<and> (\<forall>i < length ts.
              (let p = lit ''['' @ str_nat (i + 1) @ lit ''/'' @ str_nat (length ts) @ lit ''] '';
                   body = trim_tweet (ts ! i);
                   r = numbered ts b ! i
               in (length (p @ body) \<le> 280 \<longrightarrow> r = p @ body)
                \<and> (280 < length (p @ body) \<longrightarrow>
                      r = p @ take (280 - length p - 3) body @ lit ''...'' \<and> length r = 280)
                \<and> length r \<le> 280)))
   \<and> enforce ts b n = (if n < int (length ts) then slice_to n (numbered ts b) else numbered ts b)
   \<and> enforce [lit ''short1'', lit ''short2''] True 5
        = [lit ''[1/2] short1'', lit ''[2/2] short2'']
   \<and> (1 \<le> n \<longrightarrow> enforce [t] True n = [trim_tweet t])"
proof (intro conjI impI)
  show "numbered ts b = map trim_tweet ts" if "\<not> (b \<and> 1 < length ts)"
    using that by (rule numbered_off)
  show "length (numbered ts b) = length ts"
    by simp
  show "enforce ts b n = (if n < int (length ts) then slice_to n (numbered ts b) else numbered ts b)"
    by (rule enforce_cut)
  show "enforce [lit ''short1'', lit ''short2''] True 5
          = [lit ''[1/2] short1'', lit ''[2/2] short2'']"
    by code_simp
  show "enforce [t] True n = [trim_tweet t]" if "1 \<le> n"
    using that by (simp add: enforce_def numbered_def Let_def)
  show "\<forall>i < length ts.
          (let p = lit ''['' @ str_nat (i + 1) @ lit ''/'' @ str_nat (length ts) @ lit ''] '';
               body = trim_tweet (ts ! i);
               r = numbered ts b ! i
           in (length (p @ body) \<le> 280 \<longrightarrow> r = p @ body)
            \<and> (280 < length (p @ body) \<longrightarrow>
                  r = p @ take (280 - length p - 3) body @ lit ''...'' \<and> length r = 280)
            \<and> length r \<le> 280)"
    if h: "b \<and> 1 < length ts \<and> length ts \<le> PY_SSIZE_T_MAX"
  proof (intro allI impI)
    fix i assume i: "i < length ts"
    let ?p = "thread_number (Suc i) (length ts)"
    let ?body = "trim_tweet (ts ! i)"
    have p: "lit ''['' @ str_nat (i + 1) @ lit ''/'' @ str_nat (length ts) @ lit ''] '' = ?p"
      by (simp add: thread_number_def)
    from h i have r: "numbered ts b ! i = number_tweet (length ts) (Suc i) ?body"
      by (simp add: nth_numbered_on)
    from h i have "length ?p \<le> 42"
      by (intro length_thread_number_bound) simp_all
    then have p277: "length ?p \<le> 277"
      by simp
    have a: "number_tweet (length ts) (Suc i) ?body = ?p @ ?body"
      if "length (?p @ ?body) \<le> 280"
      using that by (rule number_tweet_fits)
    have c: "number_tweet (length ts) (Suc i) ?body
               = ?p @ take (280 - length ?p - 3) ?body @ lit ''...''"
      and d: "length (number_tweet (length ts) (Suc i) ?body) = 280"
      if "280 < length (?p @ ?body)"
      using that p277 by (rule number_tweet_retrim, rule length_number_tweet_retrim)
    have e: "length (number_tweet (length ts) (Suc i) ?body) \<le> 280"
      using p277 by (rule length_number_tweet)
    show "let p = lit ''['' @ str_nat (i + 1) @ lit ''/'' @ str_nat (length ts) @ lit ''] '';
              body = trim_tweet (ts ! i);
              r = numbered ts b ! i
          in (length (p @ body) \<le> 280 \<longrightarrow> r = p @ body)
           \<and> (280 < length (p @ body) \<longrightarrow>
                 r = p @ take (280 - length p - 3) body @ lit ''...'' \<and> length r = 280)
           \<and> length r \<le> 280"
      unfolding Let_def p r using a c d e by blast
  qed
qed

text \<open>
  C4. When the list after clamping and numbering has more than \<open>max_tweets\<close> elements,
  the result is its first \<open>max_tweets\<close> elements (\<open>max_tweets\<close> not negative). The
  prefixes are those computed before the cut: each surviving tweet still shows the
  length of the whole list as its total. Ten tweets cut to five keep the prefixes
  \<open>[1/10] \<close> to \<open>[5/10] \<close>.
\<close>

theorem cap_step:
  "(0 \<le> n \<and> n < int (length (numbered ts b)) \<longrightarrow>
      enforce ts b n = take (nat n) (numbered ts b))
   \<and> (b \<and> 1 < length ts \<and> 0 \<le> n \<and> n < int (length ts) \<longrightarrow>
        length (enforce ts b n) = nat n
        \<and> (\<forall>i < nat n. prefix (thread_number (i + 1) (length ts)) (enforce ts b n ! i)))
   \<and> (length ts = 10 \<longrightarrow>
        length (enforce ts True 5) = 5
        \<and> (\<forall>i < 5. prefix (lit ''['' @ str_nat (i + 1) @ lit ''/10] '') (enforce ts True 5 ! i)))"
proof -
  have cut: "enforce ts b n = take (nat n) (numbered ts b)"
    if "0 \<le> n \<and> n < int (length (numbered ts b))" for ts b n
    using that by (simp add: enforce_cut slice_to_def)
  have pre: "length (enforce ts b n) = nat n
      \<and> (\<forall>i < nat n. prefix (thread_number (i + 1) (length ts)) (enforce ts b n ! i))"
    if h: "b \<and> 1 < length ts \<and> 0 \<le> n \<and> n < int (length ts)" for ts b n
  proof (intro conjI allI impI)
    from h have e: "enforce ts b n = take (nat n) (numbered ts b)"
      by (intro cut) simp
    from h have nn: "nat n < length ts"
      by linarith
    then show "length (enforce ts b n) = nat n"
      unfolding e by simp
    fix i assume i: "i < nat n"
    with h nn have "enforce ts b n ! i = number_tweet (length ts) (Suc i) (trim_tweet (ts ! i))"
      unfolding e by (simp add: nth_numbered_on)
    then show "prefix (thread_number (i + 1) (length ts)) (enforce ts b n ! i)"
      by (simp add: prefix_number_tweet)
  qed
  have ten: "length (enforce ts True 5) = 5
      \<and> (\<forall>i < 5. prefix (lit ''['' @ str_nat (i + 1) @ lit ''/10] '') (enforce ts True 5 ! i))"
    if l: "length ts = 10"
  proof -
    have "str_nat 10 = lit ''10''"
      by code_simp
    then have t: "thread_number (Suc i) 10 = lit ''['' @ str_nat (Suc i) @ lit ''/10] ''" for i
      by (simp add: thread_number_def lit_def)
    from l pre [of True ts 5] show ?thesis
      by (simp add: t)
  qed
  from cut [of n ts b] pre [of b ts n] ten show ?thesis
    by blast
qed

text \<open>
  C9. Enforcing the output of an enforcement again, with the same arguments, returns
  it unchanged whenever the second run numbers nothing and cuts nothing. For a list
  that a Python list can hold it is enough that the second run does not number and
  does not cut to \<open>max_tweets\<close>: the tweets are then within 280 characters already.
  Without numbering the enforcement is idempotent for every \<open>max_tweets\<close> from 1 on.
\<close>

theorem enforce_idempotent:
  "(\<not> (b \<and> 1 < length (enforce ts b n)) \<and> int (length (enforce ts b n)) \<le> n
      \<and> (\<forall>t \<in> set (enforce ts b n). length t \<le> 280)
      \<longrightarrow> enforce (enforce ts b n) b n = enforce ts b n)
   \<and> (length ts \<le> PY_SSIZE_T_MAX
      \<and> \<not> (b \<and> 1 < length (enforce ts b n)) \<and> int (length (enforce ts b n)) \<le> n
      \<longrightarrow> enforce (enforce ts b n) b n = enforce ts b n)
   \<and> (1 \<le> n \<longrightarrow> enforce (enforce ts False n) False n = enforce ts False n)"
proof (intro conjI impI)
  show "enforce (enforce ts b n) b n = enforce ts b n"
    if "\<not> (b \<and> 1 < length (enforce ts b n)) \<and> int (length (enforce ts b n)) \<le> n
        \<and> (\<forall>t \<in> set (enforce ts b n). length t \<le> 280)"
    using that by (intro enforce_fixed) simp_all
  show "enforce (enforce ts b n) b n = enforce ts b n"
    if "length ts \<le> PY_SSIZE_T_MAX
        \<and> \<not> (b \<and> 1 < length (enforce ts b n)) \<and> int (length (enforce ts b n)) \<le> n"
    using that length_enforce_elems [of ts _ b n] by (intro enforce_fixed) blast+
  show "enforce (enforce ts False n) False n = enforce ts False n" if "1 \<le> n"
  proof -
    from that have e: "enforce ts False n = take (nat n) (map trim_tweet ts)"
      by (intro enforce_no_numbering) simp
    have "\<forall>t \<in> set (take (nat n) (map trim_tweet ts)). length t \<le> 280"
      using set_take_subset [of "nat n" "map trim_tweet ts"] length_trim_tweet by auto
    moreover from that have "int (length (take (nat n) (map trim_tweet ts))) \<le> n"
      by simp
    ultimately have "enforce (take (nat n) (map trim_tweet ts)) False n
        = take (nat n) (map trim_tweet ts)"
      by (intro enforce_fixed) simp_all
    then show ?thesis by (simp add: e)
  qed
qed


text \<open>
  Numbering at a list of two tweets, the first of 300 characters, and at a single tweet.
\<close>

theorem numbering_step_witness:
  "numbered [replicate 300 120, lit ''b''] True ! 0
     = lit ''[1/2] '' @ replicate 271 120 @ lit ''...''
   \<and> length (numbered [replicate 300 120, lit ''b''] True ! 0) = 280
   \<and> numbered [replicate 300 120, lit ''b''] True ! 1 = lit ''[2/2] b''
   \<and> numbered [lit ''a''] True = [lit ''a'']
   \<and> enforce [lit ''a''] True 1 = [lit ''a'']"
proof -
  let ?ts = "[replicate 300 (120::nat), lit ''b'']"
  have h: "True \<and> 1 < length ?ts \<and> length ?ts \<le> PY_SSIZE_T_MAX"
    by (simp add: PY_SSIZE_T_MAX_def)
  note a = numbering_step [of True ?ts 5 "[]", THEN conjunct2, THEN conjunct1, rule_format, OF h]
  note a0 = a [THEN conjunct2, rule_format, of 0]
  note a1 = a [THEN conjunct2, rule_format, of 1]
  have one: "str_nat (Suc 0) = [49]" and two: "str_nat (Suc (Suc 0)) = [50]"
    by (simp_all add: str_nat.simps)
  have r0: "numbered ?ts True ! 0 = lit ''[1/2] '' @ replicate 271 120 @ lit ''...''
            \<and> length (numbered ?ts True ! 0) = 280"
    using a0 by (simp add: Let_def trim_tweet_long one two lit_def)
  have r1: "numbered ?ts True ! 1 = lit ''[2/2] b''"
    using a1 by (simp add: Let_def trim_tweet_short one two lit_def)
  have s: "\<not> (True \<and> 1 < length [lit ''a''])"
    by simp
  from numbering_step [of True "[lit ''a'']" 1 "lit ''a''"] s
  have r2: "numbered [lit ''a''] True = map trim_tweet [lit ''a'']"
    and r3: "enforce [lit ''a''] True 1 = [trim_tweet (lit ''a'')]"
    by simp_all
  from r0 r1 r2 r3 show ?thesis
    by (simp add: trim_tweet_short)
qed

text \<open>
  The cut at ten tweets and \<open>max_tweets = 5\<close>.
\<close>

theorem cap_step_witness:
  "enforce (replicate 10 (lit ''t'')) True 5
     = [lit ''[1/10] t'', lit ''[2/10] t'', lit ''[3/10] t'', lit ''[4/10] t'', lit ''[5/10] t'']"
proof -
  let ?ts = "replicate 10 (lit ''t'')"
  have n: "take 5 (numbered ?ts True)
     = [lit ''[1/10] t'', lit ''[2/10] t'', lit ''[3/10] t'', lit ''[4/10] t'', lit ''[5/10] t'']"
    by code_simp
  have h: "(0::int) \<le> 5 \<and> 5 < int (length (numbered ?ts True))"
    by simp
  from cap_step [of 5 ?ts True] h
  have "enforce ?ts True 5 = take (nat 5) (numbered ?ts True)"
    by blast
  then show ?thesis
    by (simp add: n)
qed

text \<open>
  Idempotence at three tweets cut to two, and at a numbered thread cut to one tweet.
\<close>

theorem enforce_idempotent_witness:
  "enforce (enforce [lit ''a'', lit ''b'', lit ''c''] False 2) False 2
     = enforce [lit ''a'', lit ''b'', lit ''c''] False 2
   \<and> enforce [lit ''a'', lit ''b'', lit ''c''] False 2 = [lit ''a'', lit ''b'']
   \<and> enforce (enforce [lit ''a'', lit ''b''] True 1) True 1 = [lit ''[1/2] a'']"
proof -
  have v: "enforce [lit ''a'', lit ''b''] True 1 = [lit ''[1/2] a'']"
    by code_simp
  have w: "enforce [lit ''a'', lit ''b'', lit ''c''] False 2 = [lit ''a'', lit ''b'']"
    by code_simp
  have h: "\<not> (True \<and> 1 < length (enforce [lit ''a'', lit ''b''] True 1))
      \<and> int (length (enforce [lit ''a'', lit ''b''] True 1)) \<le> 1
      \<and> (\<forall>t \<in> set (enforce [lit ''a'', lit ''b''] True 1). length t \<le> 280)"
    by (simp add: v)
  from enforce_idempotent [of True "[lit ''a'', lit ''b'']" 1] h
  have x: "enforce (enforce [lit ''a'', lit ''b''] True 1) True 1 = enforce [lit ''a'', lit ''b''] True 1"
    by blast
  have "(1::int) \<le> 2"
    by simp
  with enforce_idempotent [of False "[lit ''a'', lit ''b'', lit ''c'']" 2]
  have y: "enforce (enforce [lit ''a'', lit ''b'', lit ''c''] False 2) False 2
     = enforce [lit ''a'', lit ''b'', lit ''c''] False 2"
    by blast
  from x y v w show ?thesis
    by simp
qed

section \<open>The parser\<close>

lemma upto_last_Cons_in: "c \<in> set s \<Longrightarrow> upto_last c (x # s) = x # upto_last c s"
  by (auto simp add: upto_last_def dropWhile_append)

lemma upto_last_Cons_notin: "c \<notin> set s \<Longrightarrow> upto_last c (c # s) = [c]"
  by (simp add: upto_last_def dropWhile_append)

lemma take_upto_last: "take (length (upto_last c s)) s = upto_last c s"
proof (induction s)
  case Nil
  then show ?case by (simp add: upto_last_def)
next
  case (Cons x s)
  show ?case
  proof (cases "c \<in> set s")
    case True
    with Cons show ?thesis by (simp add: upto_last_Cons_in)
  next
    case False
    then show ?thesis
      by (cases "x = c") (simp_all add: upto_last_Cons_notin upto_last_def dropWhile_append)
  qed
qed

lemma match_star_close:
  "match_here [AnyStar, Lit c] s =
     (if c \<in> set s then Some (length (upto_last c s)) else None)"
proof (induction s)
  case Nil
  then show ?case by simp
next
  case (Cons x s)
  then show ?case
    by (auto simp add: upto_last_Cons_in upto_last_Cons_notin)
qed

lemma match_bracket_pattern:
  "match_here bracket_pattern (x # s) =
     (if x = 91 \<and> 93 \<in> set s then Some (Suc (length (upto_last 93 s))) else None)"
  by (simp add: bracket_pattern_def match_star_close)

lemma re_search_no_close: "93 \<notin> set s \<Longrightarrow> re_search bracket_pattern s = None"
proof (induction s)
  case Nil
  then show ?case by (simp add: bracket_pattern_def)
next
  case (Cons x s)
  then show ?case by (simp add: match_bracket_pattern)
qed

lemma re_search_bracket: "re_search bracket_pattern s = bracket_span s"
proof (induction s)
  case Nil
  then show ?case by (simp add: bracket_pattern_def bracket_span_def)
next
  case (Cons x s)
  show ?case
  proof (cases "x = 91")
    case True
    then show ?thesis
      by (simp add: match_bracket_pattern bracket_span_def take_upto_last re_search_no_close)
  next
    case False
    with Cons show ?thesis
      by (simp add: match_bracket_pattern bracket_span_def)
  qed
qed

lemma bracket_span_no_open: "91 \<notin> set s \<Longrightarrow> bracket_span s = None"
  by (induction s) (simp_all add: bracket_span_def)

lemmas parse_defs = parse_tweet_response_def parse_match_def re_search_bracket

text \<open>An integer literal of more than 4300 digits, followed by a blank.\<close>

lemma scan_long_literal:
  "4300 < k + n \<Longrightarrow>
   scan_json (InInt k v) acc (replicate n 49 @ 32 # rest) = Raises digit_limit_error"
proof (induction n arbitrary: k v)
  case 0
  then show ?case by (simp add: int_literal_def)
next
  case (Suc n)
  from Suc.prems have "4300 < Suc k + n"
    by simp
  from Suc.IH [OF this] show ?case
    by simp
qed

lemma loads_long_literal:
  "loads_fragment (replicate 5000 49 @ 32 # rest) = Raises digit_limit_error"
proof -
  have "replicate 5000 (49::nat) = 49 # replicate 4999 49"
    by (simp add: replicate_Suc [symmetric] del: replicate_Suc)
  then show ?thesis
    by (simp add: loads_fragment_def json_ws_def scan_long_literal)
qed

lemma parse_long_literal:
  "parse_tweet_response loads_fragment (replicate 5000 49 @ 32 # rest)
     = Inl (ForeignError digit_limit_error)"
  by (simp add: parse_tweet_response_def loads_long_literal)

lemma parse_failure_kinds:
  assumes "parse_tweet_response loads reply = Inl e"
  shows "e = ValueError (lit ''Could not parse tweets from LLM response'')
     \<or> (\<exists>t. e = ForeignError t
            \<and> (loads reply = Raises t
                \<or> (\<exists>sub. bracket_span reply = Some sub \<and> loads sub = Raises t)))"
  using assms
  by (auto simp add: parse_defs parse_error_def split: decoded.splits json.splits option.splits)

text \<open>
  C2, as amended. As long as \<open>json.loads\<close> raises nothing but \<open>JSONDecodeError\<close>, the
  parser makes its attempts in order and the first success wins: a text that decodes
  to a list yields that list; a text that does not decode, or decodes to a value that
  is no list, leads on to the part of the text from the first \<open>[\<close> to the last \<open>]\<close>,
  which is what the greedy pattern matches, and when that part decodes to a list the
  list is returned; otherwise the parser raises \<open>ValueError\<close> with the message
  \<open>Could not parse tweets from LLM response\<close>. Another exception of \<open>json.loads\<close>, on
  the whole text or on the matched part, is not caught and leaves the parser as it
  is. With a decoder that rejects the whole text and decodes \<open>["a","b"]\<close>, a reply with
  prose around the array yields the two strings; a text without brackets that does
  not decode raises the error.
\<close>

theorem parse_ordered_attempts:
  "(loads raw = Decoded (JArr tweets) \<longrightarrow> parse_tweet_response loads raw = Inr tweets)
   \<and> ((loads raw = JSONDecodeError \<or> (loads raw = Decoded v \<and> (\<forall>xs. v \<noteq> JArr xs)))
        \<and> bracket_span raw = Some sub \<and> loads sub = Decoded (JArr tweets)
        \<longrightarrow> parse_tweet_response loads raw = Inr tweets)
   \<and> ((loads raw = JSONDecodeError \<or> (loads raw = Decoded v \<and> (\<forall>xs. v \<noteq> JArr xs)))
        \<and> (bracket_span raw = None
            \<or> (bracket_span raw = Some sub
                \<and> (loads sub = JSONDecodeError
                    \<or> (loads sub = Decoded w \<and> (\<forall>xs. w \<noteq> JArr xs)))))
        \<longrightarrow> parse_tweet_response loads raw
              = Inl (ValueError (lit ''Could not parse tweets from LLM response'')))
   \<and> (loads raw = Raises e \<longrightarrow> parse_tweet_response loads raw = Inl (ForeignError e))
   \<and> ((loads raw = JSONDecodeError \<or> (loads raw = Decoded v \<and> (\<forall>xs. v \<noteq> JArr xs)))
        \<and> bracket_span raw = Some sub \<and> loads sub = Raises e
        \<longrightarrow> parse_tweet_response loads raw = Inl (ForeignError e))
   \<and> re_search bracket_pattern raw = bracket_span raw
   \<and> (loads (lit ''Here you go: [\"a\",\"b\"] '' @ [8212] @ lit '' enjoy!'') = JSONDecodeError
        \<and> loads (lit ''[\"a\",\"b\"]'') = Decoded (JArr [JStr (lit ''a''), JStr (lit ''b'')])
        \<longrightarrow> parse_tweet_response loads
                (lit ''Here you go: [\"a\",\"b\"] '' @ [8212] @ lit '' enjoy!'')
              = Inr [JStr (lit ''a''), JStr (lit ''b'')])
   \<and> (loads (lit ''not json at all'') = JSONDecodeError
        \<longrightarrow> parse_tweet_response loads (lit ''not json at all'')
              = Inl (ValueError (lit ''Could not parse tweets from LLM response'')))"
proof -
  have through: "parse_tweet_response loads raw = parse_match loads raw"
    if "loads raw = JSONDecodeError \<or> (loads raw = Decoded v \<and> (\<forall>xs. v \<noteq> JArr xs))"
    for raw v
    using that by (cases v) (auto simp add: parse_tweet_response_def)
  have found: "parse_match loads raw = Inr tweets"
    if "bracket_span raw = Some sub" "loads sub = Decoded (JArr tweets)" for raw sub tweets
    using that by (simp add: parse_match_def re_search_bracket)
  have lost: "parse_match loads raw = Inl parse_error"
    if "bracket_span raw = None
        \<or> (bracket_span raw = Some sub
            \<and> (loads sub = JSONDecodeError \<or> (loads sub = Decoded w \<and> (\<forall>xs. w \<noteq> JArr xs))))"
    for raw sub w
    using that by (cases w) (auto simp add: parse_match_def re_search_bracket)
  have raised: "parse_match loads raw = Inl (ForeignError e)"
    if "bracket_span raw = Some sub" "loads sub = Raises e" for raw sub e
    using that by (simp add: parse_match_def re_search_bracket)
  have one: "parse_tweet_response loads raw = Inr tweets" if "loads raw = Decoded (JArr tweets)"
    using that by (simp add: parse_tweet_response_def)
  have four: "parse_tweet_response loads raw = Inl (ForeignError e)" if "loads raw = Raises e"
    using that by (simp add: parse_tweet_response_def)
  have here: "bracket_span (lit ''Here you go: [\"a\",\"b\"] '' @ [8212] @ lit '' enjoy!'')
                = Some (lit ''[\"a\",\"b\"]'')"
    by (simp add: bracket_span_def upto_last_def lit_def)
  have prose: "bracket_span (lit ''not json at all'') = None"
    by (rule bracket_span_no_open) (simp add: lit_def)
  show ?thesis
    using through [of raw v] found [of raw sub tweets] lost [of raw sub w] raised [of raw sub e]
      one four re_search_bracket [of raw]
      through [of "lit ''Here you go: [\"a\",\"b\"] '' @ [8212] @ lit '' enjoy!''" JNull]
      found [OF here, of "[JStr (lit ''a''), JStr (lit ''b'')]"]
      through [of "lit ''not json at all''" JNull] lost [of "lit ''not json at all''" "[]" JNull]
      prose
    unfolding parse_error_def by metis
qed

text \<open>
  The parser run with the decoder for the fragment: prose around an array, no JSON
  at all, an array, an integer, an integer before an array, and an integer literal of
  5000 digits before an array.
\<close>

theorem parse_ordered_attempts_witness:
  "parse_tweet_response loads_fragment
       (lit ''Here you go: [\"a\",\"b\"] '' @ [8212] @ lit '' enjoy!'')
     = Inr [JStr (lit ''a''), JStr (lit ''b'')]
   \<and> parse_tweet_response loads_fragment (lit ''not json at all'')
     = Inl (ValueError (lit ''Could not parse tweets from LLM response''))
   \<and> parse_tweet_response loads_fragment (lit ''[\"a\",\"b\"]'')
     = Inr [JStr (lit ''a''), JStr (lit ''b'')]
   \<and> parse_tweet_response loads_fragment (lit ''17'')
     = Inl (ValueError (lit ''Could not parse tweets from LLM response''))
   \<and> parse_tweet_response loads_fragment (lit ''17 [\"a\",\"b\"]'')
     = Inr [JStr (lit ''a''), JStr (lit ''b'')]
   \<and> parse_tweet_response loads_fragment (replicate 5000 49 @ lit '' [\"a\",\"b\"]'')
     = Inl (ForeignError digit_limit_error)"
proof -
  let ?raw = "lit ''Here you go: [\"a\",\"b\"] '' @ [8212] @ lit '' enjoy!''"
  let ?ab = "[JStr (lit ''a''), JStr (lit ''b'')]"
  have a: "loads_fragment ?raw = JSONDecodeError"
    by code_simp
  have b: "loads_fragment (lit ''[\"a\",\"b\"]'') = Decoded (JArr ?ab)"
    by code_simp
  have c: "loads_fragment (lit ''not json at all'') = JSONDecodeError"
    by code_simp
  have d: "loads_fragment (lit ''17'') = Decoded (JInt 17) \<and> (\<forall>xs. JInt 17 \<noteq> JArr xs)"
    by (simp add: loads_fragment_def lit_def int_literal_def json_ws_def)
  have e: "bracket_span (lit ''17'') = None"
    by (rule bracket_span_no_open) (simp add: lit_def)
  have f: "loads_fragment (lit ''17 [\"a\",\"b\"]'') = JSONDecodeError"
    by code_simp
  have g: "bracket_span (lit ''17 [\"a\",\"b\"]'') = Some (lit ''[\"a\",\"b\"]'')"
    by (simp add: bracket_span_def upto_last_def lit_def)
  have h: "loads_fragment (replicate 5000 49 @ lit '' [\"a\",\"b\"]'') = Raises digit_limit_error"
    using loads_long_literal [of "lit ''[\"a\",\"b\"]''"] by (simp add: lit_def)
  note p = parse_ordered_attempts [where loads = loads_fragment]
  from p [where raw = ?raw] a b
  have "parse_tweet_response loads_fragment ?raw = Inr ?ab"
    by blast
  moreover from p [where raw = "lit ''not json at all''"] c
  have "parse_tweet_response loads_fragment (lit ''not json at all'')
          = Inl (ValueError (lit ''Could not parse tweets from LLM response''))"
    by blast
  moreover from p [where raw = "lit ''[\"a\",\"b\"]''" and tweets = ?ab] b
  have "parse_tweet_response loads_fragment (lit ''[\"a\",\"b\"]'') = Inr ?ab"
    by blast
  moreover from p [where raw = "lit ''17''" and v = "JInt 17"] d e
  have "parse_tweet_response loads_fragment (lit ''17'')
          = Inl (ValueError (lit ''Could not parse tweets from LLM response''))"
    by blast
  moreover
  from p [where raw = "lit ''17 [\"a\",\"b\"]''" and sub = "lit ''[\"a\",\"b\"]''" and tweets = ?ab]
    f g b
  have "parse_tweet_response loads_fragment (lit ''17 [\"a\",\"b\"]'') = Inr ?ab"
    by blast
  moreover
  from p [where raw = "replicate 5000 49 @ lit '' [\"a\",\"b\"]''" and e = digit_limit_error] h
  have "parse_tweet_response loads_fragment (replicate 5000 49 @ lit '' [\"a\",\"b\"]'')
          = Inl (ForeignError digit_limit_error)"
    by blast
  ultimately show ?thesis
    by blast
qed

text \<open>
  C2 as stated fails: on a literal of 5000 digits followed by \<open>["a","b"]\<close> the whole
  text is no JSON and the part from the first \<open>[\<close> to the last \<open>]\<close> decodes to a list,
  yet the parser neither returns that list nor raises its own error: the
  \<open>ValueError\<close> that \<open>json.loads\<close> raises at the literal leaves it.
\<close>

theorem parse_ordered_attempts_counterexample:
  "loads_fragment (replicate 5000 49 @ lit '' [\"a\",\"b\"]'') = Raises digit_limit_error
   \<and> bracket_span (replicate 5000 49 @ lit '' [\"a\",\"b\"]'') = Some (lit ''[\"a\",\"b\"]'')
   \<and> loads_fragment (lit ''[\"a\",\"b\"]'') = Decoded (JArr [JStr (lit ''a''), JStr (lit ''b'')])
   \<and> parse_tweet_response loads_fragment (replicate 5000 49 @ lit '' [\"a\",\"b\"]'')
       = Inl (ForeignError digit_limit_error)
   \<and> parse_tweet_response loads_fragment (replicate 5000 49 @ lit '' [\"a\",\"b\"]'')
       \<noteq> Inr [JStr (lit ''a''), JStr (lit ''b'')]
   \<and> parse_tweet_response loads_fragment (replicate 5000 49 @ lit '' [\"a\",\"b\"]'')
       \<noteq> Inl (ValueError (lit ''Could not parse tweets from LLM response''))"
proof -
  let ?raw = "replicate 5000 49 @ lit '' [\"a\",\"b\"]''"
  have h: "loads_fragment ?raw = Raises digit_limit_error"
    using loads_long_literal [of "lit ''[\"a\",\"b\"]''"] by (simp add: lit_def)
  have "dropWhile (\<lambda>x. x \<noteq> 91) ?raw = lit ''[\"a\",\"b\"]''"
    by (simp add: lit_def dropWhile_append)
  then have s: "bracket_span ?raw = Some (lit ''[\"a\",\"b\"]'')"
    by (simp add: bracket_span_def upto_last_def lit_def)
  have b: "loads_fragment (lit ''[\"a\",\"b\"]'') = Decoded (JArr [JStr (lit ''a''), JStr (lit ''b'')])"
    by code_simp
  from h have "parse_tweet_response loads_fragment ?raw = Inl (ForeignError digit_limit_error)"
    by (simp add: parse_tweet_response_def)
  with h s b show ?thesis
    by simp
qed

section \<open>The templates\<close>

lemma scan_fields_format:
  "scan_fields st s = Some names \<Longrightarrow> set names \<subseteq> fst ` set kw \<Longrightarrow>
   \<exists>r. format_scan kw st s = Inr r"
proof (induction kw st s arbitrary: names rule: format_scan.induct)
  case (1 kw)
  then show ?case by simp
next
  case (2 kw f)
  then show ?case by simp
next
  case (3 kw c s)
  then show ?case by (auto split: if_splits)
next
  case (4 kw f c s)
  show ?case
  proof (cases "c = 125")
    case True
    with "4.prems" obtain rest where rest: "scan_fields None s = Some rest" "names = f # rest"
      by auto
    with "4.prems" have "f \<in> fst ` set kw"
      by simp
    then obtain v where v: "map_of kw f = Some v"
      by (metis map_of_eq_None_iff not_Some_eq)
    from rest "4.prems" have "set rest \<subseteq> fst ` set kw"
      by simp
    with "4.IH"(1) [OF True v rest(1)] obtain r where "format_scan kw None s = Inr r"
      by blast
    with True v show ?thesis by simp
  next
    case False
    with 4 show ?thesis by simp
  qed
qed

lemma scan_fields_sublist:
  "scan_fields st s = Some names \<Longrightarrow> f \<in> set names \<Longrightarrow>
   sublist (123 # f @ [125]) (case st of None \<Rightarrow> s | Some g \<Rightarrow> 123 # g @ s)"
proof (induction st s arbitrary: names rule: scan_fields.induct)
  case 1
  then show ?case by simp
next
  case (2 g)
  then show ?case by simp
next
  case (3 c s)
  show ?case
  proof (cases "c = 123")
    case True
    with 3 show ?thesis by simp
  next
    case False
    with "3.prems" have "c \<noteq> 125" and "scan_fields None s = Some names"
      by (auto split: if_splits)
    with "3.IH"(2) [OF False _ _ "3.prems"(2)] have "sublist (123 # f @ [125]) s"
      by simp
    then show ?thesis
      by (simp add: sublist_Cons_right)
  qed
next
  case (4 g c s)
  show ?case
  proof (cases "c = 125")
    case True
    with "4.prems" obtain rest where rest: "scan_fields None s = Some rest" "names = g # rest"
      by auto
    show ?thesis
    proof (cases "f = g")
      case True
      have "prefix (123 # g @ [125]) (123 # g @ 125 # s)"
        by simp
      with True \<open>c = 125\<close> show ?thesis
        by (simp add: sublist_Cons_right)
    next
      case False
      with rest "4.prems" have "f \<in> set rest"
        by simp
      with "4.IH"(1) [OF \<open>c = 125\<close> rest(1)] have "sublist (123 # f @ [125]) s"
        by simp
      then have "sublist (123 # f @ [125]) ((123 # g @ [c]) @ s)"
        unfolding sublist_def by (metis append.assoc)
      then show ?thesis by simp
    qed
  next
    case False
    with 4 show ?thesis by simp
  qed
qed

lemma fields_professional:
  "scan_fields None professional_prompt = Some [lit ''tweet_count'', lit ''topic'']"
  by (simp add: professional_prompt_def lit_def)

lemma fields_casual:
  "scan_fields None casual_prompt = Some [lit ''tweet_count'', lit ''topic'']"
  by (simp add: casual_prompt_def lit_def)

lemma fields_humorous:
  "scan_fields None humorous_prompt = Some [lit ''tweet_count'', lit ''topic'']"
  by (simp add: humorous_prompt_def lit_def)

lemma fields_engaging:
  "scan_fields None engaging_prompt = Some [lit ''tweet_count'', lit ''topic'']"
  by (simp add: engaging_prompt_def lit_def)

lemma fields_educational:
  "scan_fields None educational_prompt = Some [lit ''tweet_count'', lit ''topic'']"
  by (simp add: educational_prompt_def lit_def)

lemma prompt_fields:
  "template \<in> set (map snd TWEET_PROMPTS) \<Longrightarrow>
   scan_fields None template = Some [lit ''tweet_count'', lit ''topic'']"
  using fields_professional fields_casual fields_humorous fields_engaging fields_educational
  by (auto simp add: TWEET_PROMPTS_def)

lemma prompt_placeholders:
  assumes "template \<in> set (map snd TWEET_PROMPTS)"
  shows "sublist (lit ''{topic}'') template" and "sublist (lit ''{tweet_count}'') template"
proof -
  note f = prompt_fields [OF assms]
  have "sublist (123 # lit ''topic'' @ [125]) template"
    using scan_fields_sublist [OF f, of "lit ''topic''"] by simp
  then show "sublist (lit ''{topic}'') template"
    by (simp add: lit_def)
  have "sublist (123 # lit ''tweet_count'' @ [125]) template"
    using scan_fields_sublist [OF f, of "lit ''tweet_count''"] by simp
  then show "sublist (lit ''{tweet_count}'') template"
    by (simp add: lit_def)
qed

lemma prompt_format:
  assumes "template \<in> set (map snd TWEET_PROMPTS)"
  shows "\<exists>content. str_format template [(lit ''topic'', a), (lit ''tweet_count'', b)] = Inr content"
  unfolding str_format_def
  by (rule scan_fields_format [OF prompt_fields [OF assms]]) simp

lemma prompt_keys:
  "map fst TWEET_PROMPTS
     = [lit ''professional'', lit ''casual'', lit ''humorous'', lit ''engaging'',
        lit ''educational'']"
  by (simp add: TWEET_PROMPTS_def)

lemma map_of_prompts:
  "map_of TWEET_PROMPTS (lit ''professional'') = Some professional_prompt"
  "map_of TWEET_PROMPTS (lit ''casual'') = Some casual_prompt"
  "map_of TWEET_PROMPTS (lit ''humorous'') = Some humorous_prompt"
  "map_of TWEET_PROMPTS (lit ''engaging'') = Some engaging_prompt"
  "map_of TWEET_PROMPTS (lit ''educational'') = Some educational_prompt"
  by (simp_all add: TWEET_PROMPTS_def lit_def)

lemma resolve_tone_key: "resolve_tone tone \<in> set (map fst TWEET_PROMPTS)"
  by (simp add: resolve_tone_def Let_def prompt_keys)

lemma lookup_resolved:
  "\<exists>template. lookup tone = Inr template
      \<and> map_of TWEET_PROMPTS (resolve_tone tone) = Some template
      \<and> template \<in> set (map snd TWEET_PROMPTS)"
proof -
  from resolve_tone_key [of tone]
  obtain template where t: "map_of TWEET_PROMPTS (resolve_tone tone) = Some template"
    by (metis map_of_eq_None_iff not_Some_eq set_map)
  then have "(resolve_tone tone, template) \<in> set TWEET_PROMPTS"
    by (rule map_of_SomeD)
  then have "template \<in> set (map snd TWEET_PROMPTS)"
    by force
  with t show ?thesis
    by (simp add: lookup_def)
qed

lemma resolve_tone_known:
  "lower t \<in> set (map fst TWEET_PROMPTS) \<Longrightarrow> resolve_tone (Some t) = lower t"
  by (auto simp add: resolve_tone_def Let_def prompt_keys lower_def lit_def)

lemma resolve_tone_unknown:
  "lower t \<notin> set (map fst TWEET_PROMPTS) \<Longrightarrow> resolve_tone (Some t) = lit ''engaging''"
  by (simp add: resolve_tone_def Let_def)

lemma resolve_tone_absent:
  "resolve_tone None = lit ''engaging''" "resolve_tone (Some []) = lit ''engaging''"
  by (simp_all add: resolve_tone_def Let_def prompt_keys)

lemma lookup_known:
  "lower t = key \<Longrightarrow> map_of TWEET_PROMPTS key = Some template \<Longrightarrow>
   lookup (Some t) = Inr template"
proof -
  assume l: "lower t = key" and m: "map_of TWEET_PROMPTS key = Some template"
  from m have "key \<in> set (map fst TWEET_PROMPTS)"
    by (metis map_of_eq_None_iff option.distinct(1) set_map)
  with l have "resolve_tone (Some t) = key"
    by (simp add: resolve_tone_known)
  with m show ?thesis
    by (simp add: lookup_def)
qed

text \<open>
  C8. The lookup never raises. A tone whose lower case is one of the five keys gets
  the template of that key; each of the five templates contains the placeholders
  \<open>{topic}\<close> and \<open>{tweet_count}\<close>; \<open>None\<close>, the empty string and every string whose lower
  case is not a key get the template of \<open>engaging\<close>.
\<close>

theorem tone_lookup:
  "(\<exists>template. lookup tone = Inr template)
   \<and> (lower t = lit ''professional'' \<longrightarrow> lookup (Some t) = Inr professional_prompt)
   \<and> (lower t = lit ''casual'' \<longrightarrow> lookup (Some t) = Inr casual_prompt)
   \<and> (lower t = lit ''humorous'' \<longrightarrow> lookup (Some t) = Inr humorous_prompt)
   \<and> (lower t = lit ''engaging'' \<longrightarrow> lookup (Some t) = Inr engaging_prompt)
   \<and> (lower t = lit ''educational'' \<longrightarrow> lookup (Some t) = Inr educational_prompt)
   \<and> (\<forall>template \<in> set [professional_prompt, casual_prompt, humorous_prompt, engaging_prompt,
                          educational_prompt].
         sublist (lit ''{topic}'') template \<and> sublist (lit ''{tweet_count}'') template)
   \<and> lookup None = Inr engaging_prompt
   \<and> lookup (Some []) = Inr engaging_prompt
   \<and> (lower t \<notin> set [lit ''professional'', lit ''casual'', lit ''humorous'', lit ''engaging'',
                        lit ''educational'']
        \<longrightarrow> lookup (Some t) = Inr engaging_prompt)"
proof (intro conjI impI ballI)
  show "\<exists>template. lookup tone = Inr template"
    using lookup_resolved [of tone] by blast
  show "lookup (Some t) = Inr professional_prompt" if "lower t = lit ''professional''"
    using that by (rule lookup_known) (rule map_of_prompts)
  show "lookup (Some t) = Inr casual_prompt" if "lower t = lit ''casual''"
    using that by (rule lookup_known) (rule map_of_prompts)
  show "lookup (Some t) = Inr humorous_prompt" if "lower t = lit ''humorous''"
    using that by (rule lookup_known) (rule map_of_prompts)
  show "lookup (Some t) = Inr engaging_prompt" if "lower t = lit ''engaging''"
    using that by (rule lookup_known) (rule map_of_prompts)
  show "lookup (Some t) = Inr educational_prompt" if "lower t = lit ''educational''"
    using that by (rule lookup_known) (rule map_of_prompts)
  have all: "map snd TWEET_PROMPTS
      = [professional_prompt, casual_prompt, humorous_prompt, engaging_prompt,
         educational_prompt]"
    by (simp add: TWEET_PROMPTS_def)
  show "sublist (lit ''{topic}'') template"
    if "template \<in> set [professional_prompt, casual_prompt, humorous_prompt, engaging_prompt,
                          educational_prompt]" for template
    using that by (intro prompt_placeholders) (simp only: all)
  show "sublist (lit ''{tweet_count}'') template"
    if "template \<in> set [professional_prompt, casual_prompt, humorous_prompt, engaging_prompt,
                          educational_prompt]" for template
    using that by (intro prompt_placeholders) (simp only: all)
  show "lookup None = Inr engaging_prompt"
    by (simp add: lookup_def resolve_tone_absent map_of_prompts)
  show "lookup (Some []) = Inr engaging_prompt"
    by (simp add: lookup_def resolve_tone_absent map_of_prompts)
  show "lookup (Some t) = Inr engaging_prompt"
    if "lower t \<notin> set [lit ''professional'', lit ''casual'', lit ''humorous'', lit ''engaging'',
                          lit ''educational'']"
    using that by (simp add: lookup_def resolve_tone_unknown prompt_keys map_of_prompts)
qed

text \<open>
  The lookup at a tone in mixed case and at an unknown tone.
\<close>

theorem tone_lookup_witness:
  "lookup (Some (lit ''CaSuAl'')) = Inr casual_prompt
   \<and> lookup (Some (lit ''sarcastic'')) = Inr engaging_prompt
   \<and> sublist (lit ''{topic}'') casual_prompt
   \<and> sublist (lit ''{tweet_count}'') casual_prompt"
proof -
  have a: "lower (lit ''CaSuAl'') = lit ''casual''"
    by code_simp
  have b: "lower (lit ''sarcastic'') \<notin> set [lit ''professional'', lit ''casual'', lit ''humorous'',
      lit ''engaging'', lit ''educational'']"
    by code_simp
  have c: "casual_prompt \<in> set [professional_prompt, casual_prompt, humorous_prompt,
      engaging_prompt, educational_prompt]"
    by simp
  from tone_lookup [of None "lit ''CaSuAl''"] a
  have "lookup (Some (lit ''CaSuAl'')) = Inr casual_prompt"
    by blast
  moreover from tone_lookup [of None "lit ''sarcastic''"] b
  have "lookup (Some (lit ''sarcastic'')) = Inr engaging_prompt"
    by blast
  moreover from tone_lookup [of None "[]"] c
  have "sublist (lit ''{topic}'') casual_prompt \<and> sublist (lit ''{tweet_count}'') casual_prompt"
    by blast
  ultimately show ?thesis by blast
qed

section \<open>The orchestrator\<close>

lemma traverse_strings:
  "(\<And>x. x \<in> set xs \<Longrightarrow> f (g x) = Inr (h x)) \<Longrightarrow> traverse f (map g xs) = Inr (map h xs)"
  by (induction xs) simp_all

lemma trim_values_strings: "traverse trim_value (map JStr ss) = Inr (map JStr (map trim_tweet ss))"
  using traverse_strings [of ss trim_value JStr "\<lambda>s. JStr (trim_tweet s)"] by simp

lemma enumerate_map: "enumerate k (map f xs) = map (\<lambda>(i, x). (i, f x)) (enumerate k xs)"
  by (induction xs arbitrary: k) simp_all

lemma add_thread_numbering_strings:
  "add_thread_numbering_values (map JStr ss) = Inr (map JStr (add_thread_numbering ss))"
proof -
  have "traverse (\<lambda>(i, tweet). number_value (length ss) i tweet)
          (map (\<lambda>(i, x). (i, JStr x)) (enumerate 1 ss))
        = Inr (map (\<lambda>(i, x). JStr (number_tweet (length ss) i x)) (enumerate 1 ss))"
    by (rule traverse_strings) auto
  then show ?thesis
    by (simp add: add_thread_numbering_values_def add_thread_numbering_def enumerate_map
        case_prod_unfold comp_def)
qed

lemma slice_to_map: "slice_to n (map f xs) = map f (slice_to n xs)"
  by (simp add: slice_to_def take_map)

lemma enforce_values_strings:
  "enforce_values (map JStr ss) b n = Inr (map JStr (enforce ss b n))"
  unfolding enforce_values_def enforce_def numbered_def Let_def trim_values_strings
  by (simp add: add_thread_numbering_strings slice_to_map del: map_map)

lemma strip_Nil [simp]: "strip [] = []"
  by (simp add: strip_def)

lemma get_model_failure:
  assumes "10 \<le> length (strip topic)" and "1 \<le> max_tweets" and "max_tweets \<le> 20"
    and "get_chat_model c temperature = Inl e"
  shows "generate_tweet_thread c topic tone max_tweets add_numbering temperature
           = (Inl (ForeignError e), [ModelRequested temperature])"
proof -
  from assms(1) have "topic \<noteq> []"
    by auto
  with assms lookup_resolved [of tone] show ?thesis
    by (auto simp add: generate_tweet_thread_def)
qed

text \<open>The runs of \<open>generate_tweet_thread\<close> on valid inputs once the model is built.\<close>

lemma generate_with_model:
  assumes "10 \<le> length (strip topic)" and "1 \<le> max_tweets" and "max_tweets \<le> 20"
    and "get_chat_model c temperature = Inr model"
  shows "\<exists>messages.
     generate_tweet_thread c topic tone max_tweets add_numbering temperature =
       (case invoke c model messages of
          Inl e \<Rightarrow> (Inl (Exception (ForeignError e)),
                    [ModelRequested temperature, ModelInvoked messages])
        | Inr response_text \<Rightarrow>
            (case parse_tweet_response (json_loads c) response_text of
               Inl e \<Rightarrow> Inl (Exception e)
             | Inr tweets \<Rightarrow>
                 (case enforce_values tweets add_numbering max_tweets of
                    Inl e \<Rightarrow> Inl (Exception e)
                  | Inr valid_tweets \<Rightarrow>
                      Inr \<lparr>res_tweets = valid_tweets,
                           res_tweet_count = length valid_tweets,
                           res_tone = resolve_tone tone,
                           res_topic = topic\<rparr>),
             [ModelRequested temperature, ModelInvoked messages, ModelReplied response_text]))"
proof -
  from assms(1) have t: "topic \<noteq> []"
    by auto
  from lookup_resolved [of tone] obtain template
    where l: "lookup tone = Inr template" and m: "template \<in> set (map snd TWEET_PROMPTS)"
    by blast
  from prompt_format [OF m, of topic "str_int max_tweets"] obtain content
    where f: "str_format template [(lit ''topic'', topic), (lit ''tweet_count'', str_int max_tweets)]
                = Inr content"
    by blast
  let ?messages = "[SystemMessage content,
                    HumanMessage (lit ''Generate a '' @ str_int max_tweets
                                  @ lit ''-tweet thread about: '' @ topic)]"
  have "generate_tweet_thread c topic tone max_tweets add_numbering temperature =
       (case invoke c model ?messages of
          Inl e \<Rightarrow> (Inl (Exception (ForeignError e)),
                    [ModelRequested temperature, ModelInvoked ?messages])
        | Inr response_text \<Rightarrow>
            (case parse_tweet_response (json_loads c) response_text of
               Inl e \<Rightarrow> Inl (Exception e)
             | Inr tweets \<Rightarrow>
                 (case enforce_values tweets add_numbering max_tweets of
                    Inl e \<Rightarrow> Inl (Exception e)
                  | Inr valid_tweets \<Rightarrow>
                      Inr \<lparr>res_tweets = valid_tweets,
                           res_tweet_count = length valid_tweets,
                           res_tone = resolve_tone tone,
                           res_topic = topic\<rparr>),
             [ModelRequested temperature, ModelInvoked ?messages, ModelReplied response_text]))"
    using assms t l f
    by (simp add: generate_tweet_thread_def try_body_def Let_def split: sum.splits)
  then show ?thesis
    by (rule exI)
qed


lemma generate_topic_error:
  "length (strip topic) < 10 \<Longrightarrow>
   generate_tweet_thread c topic tone max_tweets add_numbering temperature = (Inl topic_error, [])"
  by (simp add: generate_tweet_thread_def)

lemma generate_max_tweets_error:
  "10 \<le> length (strip topic) \<Longrightarrow> max_tweets < 1 \<or> 20 < max_tweets \<Longrightarrow>
   generate_tweet_thread c topic tone max_tweets add_numbering temperature
     = (Inl max_tweets_error, [])"
  by (auto simp add: generate_tweet_thread_def)

text \<open>Every run of \<open>generate_tweet_thread\<close> is one of seven.\<close>

lemma generate_cases:
  obtains
    (bad_topic) "length (strip topic) < 10" "generate_tweet_thread c topic tone max_tweets add_numbering temperature = (Inl topic_error, [])"
  | (bad_count) "10 \<le> length (strip topic)" "max_tweets < 1 \<or> 20 < max_tweets"
      "generate_tweet_thread c topic tone max_tweets add_numbering temperature = (Inl max_tweets_error, [])"
  | (no_model) e where "10 \<le> length (strip topic)" "1 \<le> max_tweets" "max_tweets \<le> 20"
      "get_chat_model c temperature = Inl e"
      "generate_tweet_thread c topic tone max_tweets add_numbering temperature = (Inl (ForeignError e), [ModelRequested temperature])"
  | (no_reply) model messages e where "10 \<le> length (strip topic)" "1 \<le> max_tweets"
      "max_tweets \<le> 20" "get_chat_model c temperature = Inr model"
      "invoke c model messages = Inl e"
      "generate_tweet_thread c topic tone max_tweets add_numbering temperature = (Inl (Exception (ForeignError e)),
                          [ModelRequested temperature, ModelInvoked messages])"
  | (unparsed) model messages response_text e where "10 \<le> length (strip topic)"
      "1 \<le> max_tweets" "max_tweets \<le> 20" "get_chat_model c temperature = Inr model"
      "invoke c model messages = Inr response_text"
      "parse_tweet_response (json_loads c) response_text = Inl e"
      "generate_tweet_thread c topic tone max_tweets add_numbering temperature = (Inl (Exception e),
         [ModelRequested temperature, ModelInvoked messages, ModelReplied response_text])"
  | (unenforced) model messages response_text tweets e where "10 \<le> length (strip topic)"
      "1 \<le> max_tweets" "max_tweets \<le> 20" "get_chat_model c temperature = Inr model"
      "invoke c model messages = Inr response_text"
      "parse_tweet_response (json_loads c) response_text = Inr tweets"
      "enforce_values tweets add_numbering max_tweets = Inl e"
      "generate_tweet_thread c topic tone max_tweets add_numbering temperature = (Inl (Exception e),
         [ModelRequested temperature, ModelInvoked messages, ModelReplied response_text])"
  | (returned) model messages response_text tweets valid_tweets where
      "10 \<le> length (strip topic)" "1 \<le> max_tweets" "max_tweets \<le> 20"
      "get_chat_model c temperature = Inr model"
      "invoke c model messages = Inr response_text"
      "parse_tweet_response (json_loads c) response_text = Inr tweets"
      "enforce_values tweets add_numbering max_tweets = Inr valid_tweets"
      "generate_tweet_thread c topic tone max_tweets add_numbering temperature =
         (Inr \<lparr>res_tweets = valid_tweets, res_tweet_count = length valid_tweets,
               res_tone = resolve_tone tone, res_topic = topic\<rparr>,
          [ModelRequested temperature, ModelInvoked messages, ModelReplied response_text])"
proof (cases "length (strip topic) < 10")
  case True
  then show ?thesis
    using bad_topic by (simp add: generate_topic_error)
next
  case long: False
  show ?thesis
  proof (cases "max_tweets < 1 \<or> 20 < max_tweets")
    case True
    with long show ?thesis
      using bad_count by (simp add: generate_max_tweets_error)
  next
    case False
    with long have v: "10 \<le> length (strip topic)" "1 \<le> max_tweets" "max_tweets \<le> 20"
      by simp_all
    show ?thesis
    proof (cases "get_chat_model c temperature")
      case (Inl e)
      with v show ?thesis
        using no_model by (simp add: get_model_failure)
    next
      case (Inr model)
      from generate_with_model [OF v Inr, of tone add_numbering] obtain messages
        where g: "generate_tweet_thread c topic tone max_tweets add_numbering temperature =
         (case invoke c model messages of
            Inl e \<Rightarrow> (Inl (Exception (ForeignError e)),
                      [ModelRequested temperature, ModelInvoked messages])
          | Inr response_text \<Rightarrow>
              (case parse_tweet_response (json_loads c) response_text of
                 Inl e \<Rightarrow> Inl (Exception e)
               | Inr tweets \<Rightarrow>
                   (case enforce_values tweets add_numbering max_tweets of
                      Inl e \<Rightarrow> Inl (Exception e)
                    | Inr valid_tweets \<Rightarrow>
                        Inr \<lparr>res_tweets = valid_tweets,
                             res_tweet_count = length valid_tweets,
                             res_tone = resolve_tone tone,
                             res_topic = topic\<rparr>),
               [ModelRequested temperature, ModelInvoked messages,
                ModelReplied response_text]))"
        by blast
      show ?thesis
      proof (cases "invoke c model messages")
        case (Inl e)
        with g v Inr show ?thesis
          using no_reply by simp
      next
        case reply: (Inr response_text)
        show ?thesis
        proof (cases "parse_tweet_response (json_loads c) response_text")
          case (Inl e)
          with g v Inr reply show ?thesis
            using unparsed by simp
        next
          case parsed: (Inr tweets)
          show ?thesis
          proof (cases "enforce_values tweets add_numbering max_tweets")
            case (Inl e)
            with g v Inr reply parsed show ?thesis
              using unenforced by simp
          next
            case enforced: (Inr valid_tweets)
            with g v Inr reply parsed show ?thesis
              using returned by simp
          qed
        qed
      qed
    qed
  qed
qed


lemma length_enforce_le:
  "0 \<le> n \<Longrightarrow> int (length (enforce ss b n)) \<le> n"
  by (simp add: enforce_cut slice_to_def)

text \<open>
  C1. When a run returns a result and the reply of the model parsed to a list of
  strings (a list that a Python list can hold), \<open>tweet_count\<close> is the length of
  \<open>tweets\<close>, every tweet is a string of at most 280 characters, and \<open>tweet_count\<close> is at
  most the requested \<open>max_tweets\<close>; the tweets are the enforcement of the parsed list.
\<close>

theorem result_invariant:
  assumes "generate_tweet_thread c topic tone max_tweets add_numbering temperature = (Inr r, trace)"
    and "ModelReplied reply \<in> set trace"
    and "parse_tweet_response (json_loads c) reply = Inr (map JStr ss)"
    and "length ss \<le> PY_SSIZE_T_MAX"
  shows "res_tweet_count r = length (res_tweets r)
     \<and> (\<forall>v \<in> set (res_tweets r). \<exists>s. v = JStr s \<and> length s \<le> 280)
     \<and> int (res_tweet_count r) \<le> max_tweets
     \<and> res_tweets r = map JStr (enforce ss add_numbering max_tweets)"
proof (cases c topic tone max_tweets add_numbering temperature rule: generate_cases)
  case (returned model messages response_text tweets valid_tweets)
  with assms(1,2) have "response_text = reply"
    and r: "r = \<lparr>res_tweets = valid_tweets, res_tweet_count = length valid_tweets,
                  res_tone = resolve_tone tone, res_topic = topic\<rparr>"
    by auto
  with returned assms(3) have "enforce_values (map JStr ss) add_numbering max_tweets = Inr valid_tweets"
    by simp
  then have v: "valid_tweets = map JStr (enforce ss add_numbering max_tweets)"
    by (simp add: enforce_values_strings)
  have "\<exists>s. w = JStr s \<and> length s \<le> 280" if "w \<in> set valid_tweets" for w
    using that assms(4) length_enforce_elems [of ss _ add_numbering max_tweets]
    by (auto simp add: v)
  moreover from returned have "int (length valid_tweets) \<le> max_tweets"
    by (simp add: v length_enforce_le)
  ultimately show ?thesis
    using r v by simp
qed (use assms(1) in simp_all)

text \<open>
  C10. When the model replied and the reply parses to the empty list, the run
  returns a result, with no tweets, \<open>tweet_count = 0\<close> and nothing numbered; it raises
  nothing.
\<close>

theorem empty_reply:
  assumes "generate_tweet_thread c topic tone max_tweets add_numbering temperature = (res, trace)"
    and "ModelReplied reply \<in> set trace"
    and "parse_tweet_response (json_loads c) reply = Inr []"
  shows "res = Inr \<lparr>res_tweets = [], res_tweet_count = 0,
                    res_tone = resolve_tone tone, res_topic = topic\<rparr>"
proof (cases c topic tone max_tweets add_numbering temperature rule: generate_cases)
  case (unparsed model messages response_text e)
  with assms show ?thesis by auto
next
  case (unenforced model messages response_text tweets e)
  with assms have "tweets = []"
    by auto
  with unenforced show ?thesis
    by (simp add: enforce_values_def)
next
  case (returned model messages response_text tweets valid_tweets)
  with assms have "tweets = []"
    by auto
  with returned have "valid_tweets = []"
    by (simp add: enforce_values_def slice_to_def split: if_splits)
  with returned assms(1) show ?thesis
    by simp
qed (use assms(1,2) in auto)

text \<open>
  C6. A run raises \<open>ValueError\<close> exactly when the stripped topic has fewer than 10
  characters or \<open>max_tweets\<close> is outside 1..20. The topic is checked first; the two
  errors carry different messages; in both cases the trace is empty, so the model
  collaborator has not been called. Nothing else in the input, the temperature and
  the length of the topic included, leads to a \<open>ValueError\<close>.
\<close>

theorem validation_errors:
  assumes "G = generate_tweet_thread c topic tone max_tweets add_numbering temperature"
  shows "((\<exists>msg. fst G = Inl (ValueError msg))
            \<longleftrightarrow> length (strip topic) < 10 \<or> max_tweets < 1 \<or> 20 < max_tweets)
     \<and> (length (strip topic) < 10 \<longrightarrow>
           G = (Inl (ValueError (lit ''Topic must be at least 10 characters long'')), []))
     \<and> (10 \<le> length (strip topic) \<and> (max_tweets < 1 \<or> 20 < max_tweets) \<longrightarrow>
           G = (Inl (ValueError (lit ''max_tweets must be between 1 and 20'')), []))
     \<and> lit ''Topic must be at least 10 characters long''
           \<noteq> lit ''max_tweets must be between 1 and 20''"
proof (intro conjI impI)
  show "(\<exists>msg. fst G = Inl (ValueError msg))
          \<longleftrightarrow> length (strip topic) < 10 \<or> max_tweets < 1 \<or> 20 < max_tweets"
    unfolding assms
    by (cases c topic tone max_tweets add_numbering temperature rule: generate_cases)
       (auto simp add: topic_error_def max_tweets_error_def)
  show "G = (Inl (ValueError (lit ''Topic must be at least 10 characters long'')), [])"
    if "length (strip topic) < 10"
    using that by (simp add: assms generate_topic_error topic_error_def)
  show "G = (Inl (ValueError (lit ''max_tweets must be between 1 and 20'')), [])"
    if "10 \<le> length (strip topic) \<and> (max_tweets < 1 \<or> 20 < max_tweets)"
    using that by (simp add: assms generate_max_tweets_error max_tweets_error_def)
  show "lit ''Topic must be at least 10 characters long''
          \<noteq> lit ''max_tweets must be between 1 and 20''"
    by (simp add: lit_def)
qed

text \<open>
  C7, as amended. A failure of the model's \<open>invoke\<close>, of the parser or of the
  enforcement of the parsed list reaches the caller as \<open>Exception cause\<close>, the
  exception built in the handler from the cause. The cause of a parser failure is the
  parser's own \<open>ValueError\<close> with its message, or the exception that \<open>json.loads\<close>
  raised and the parser did not catch. A failure of \<open>get_chat_model\<close>, which runs after
  the input checks and before the \<open>try\<close> block, reaches the caller as it is. Every
  exception that leaves a run is a \<open>ValueError\<close> of the input checks, an \<open>Exception\<close> of
  the handler, or the failure of \<open>get_chat_model\<close>.
\<close>

theorem failure_wrapping:
  assumes "G = generate_tweet_thread c topic tone max_tweets add_numbering temperature"
  shows "(get_chat_model c temperature = Inr model \<and> ModelInvoked messages \<in> set (snd G)
            \<and> invoke c model messages = Inl msg
          \<longrightarrow> fst G = Inl (Exception (ForeignError msg)))
     \<and> (ModelReplied reply \<in> set (snd G) \<and> parse_tweet_response (json_loads c) reply = Inl e
          \<longrightarrow> fst G = Inl (Exception e)
              \<and> (e = ValueError (lit ''Could not parse tweets from LLM response'')
                  \<or> (\<exists>t. e = ForeignError t
                        \<and> (json_loads c reply = Raises t
                            \<or> (\<exists>sub. bracket_span reply = Some sub
                                      \<and> json_loads c sub = Raises t)))))
     \<and> (ModelReplied reply \<in> set (snd G) \<and> json_loads c reply = Raises raised
          \<longrightarrow> fst G = Inl (Exception (ForeignError raised)))
     \<and> (ModelReplied reply \<in> set (snd G) \<and> json_loads c reply = JSONDecodeError
            \<and> bracket_span reply = None
          \<longrightarrow> fst G
              = Inl (Exception (ValueError (lit ''Could not parse tweets from LLM response''))))
     \<and> (ModelReplied reply \<in> set (snd G)
            \<and> parse_tweet_response (json_loads c) reply = Inr tweets
            \<and> enforce_values tweets add_numbering max_tweets = Inl e
          \<longrightarrow> fst G = Inl (Exception e))
     \<and> (10 \<le> length (strip topic) \<and> 1 \<le> max_tweets \<and> max_tweets \<le> 20
            \<and> get_chat_model c temperature = Inl msg
          \<longrightarrow> G = (Inl (ForeignError msg), [ModelRequested temperature]))
     \<and> (fst G = Inl e
          \<longrightarrow> validation_error e \<or> generation_failure e
              \<or> (\<exists>m. get_chat_model c temperature = Inl m \<and> e = ForeignError m))"
proof -
  have wrapped: "fst G = Inl (Exception e)"
    if "ModelReplied reply \<in> set (snd G)" "parse_tweet_response (json_loads c) reply = Inl e"
    for reply e
    using that unfolding assms
    by (cases c topic tone max_tweets add_numbering temperature rule: generate_cases) auto
  show ?thesis
  proof (intro conjI impI)
    show "fst G = Inl (Exception (ForeignError msg))"
      if "get_chat_model c temperature = Inr model \<and> ModelInvoked messages \<in> set (snd G)
          \<and> invoke c model messages = Inl msg"
      using that unfolding assms
      by (cases c topic tone max_tweets add_numbering temperature rule: generate_cases) auto
    show "fst G = Inl (Exception e)"
      if "ModelReplied reply \<in> set (snd G) \<and> parse_tweet_response (json_loads c) reply = Inl e"
      using that wrapped by blast
    show "e = ValueError (lit ''Could not parse tweets from LLM response'')
          \<or> (\<exists>t. e = ForeignError t
                \<and> (json_loads c reply = Raises t
                    \<or> (\<exists>sub. bracket_span reply = Some sub \<and> json_loads c sub = Raises t)))"
      if "ModelReplied reply \<in> set (snd G) \<and> parse_tweet_response (json_loads c) reply = Inl e"
      using that parse_failure_kinds [of "json_loads c" reply e] by blast
    show "fst G = Inl (Exception (ForeignError raised))"
      if h: "ModelReplied reply \<in> set (snd G) \<and> json_loads c reply = Raises raised"
    proof -
      from h have "parse_tweet_response (json_loads c) reply = Inl (ForeignError raised)"
        by (simp add: parse_tweet_response_def)
      with h wrapped show ?thesis by blast
    qed
    show "fst G = Inl (Exception (ValueError (lit ''Could not parse tweets from LLM response'')))"
      if h: "ModelReplied reply \<in> set (snd G) \<and> json_loads c reply = JSONDecodeError
          \<and> bracket_span reply = None"
    proof -
      from h have "parse_tweet_response (json_loads c) reply
          = Inl (ValueError (lit ''Could not parse tweets from LLM response''))"
        by (simp add: parse_defs parse_error_def)
      with h wrapped show ?thesis by blast
    qed
    show "fst G = Inl (Exception e)"
      if "ModelReplied reply \<in> set (snd G)
          \<and> parse_tweet_response (json_loads c) reply = Inr tweets
          \<and> enforce_values tweets add_numbering max_tweets = Inl e"
      using that unfolding assms
      by (cases c topic tone max_tweets add_numbering temperature rule: generate_cases) auto
    show "G = (Inl (ForeignError msg), [ModelRequested temperature])"
      if "10 \<le> length (strip topic) \<and> 1 \<le> max_tweets \<and> max_tweets \<le> 20
          \<and> get_chat_model c temperature = Inl msg"
      using that by (simp add: assms get_model_failure)
    show "validation_error e \<or> generation_failure e
            \<or> (\<exists>m. get_chat_model c temperature = Inl m \<and> e = ForeignError m)"
      if "fst G = Inl e"
      using that unfolding assms
      by (cases c topic tone max_tweets add_numbering temperature rule: generate_cases)
         (auto simp add: topic_error_def max_tweets_error_def)
  qed
qed

subsection \<open>Concrete runs\<close>

lemma stub_simps [simp]:
  "get_chat_model (stub built reply) temperature = built"
  "invoke (stub built reply) model messages = reply"
  "json_loads (stub built reply) = loads_fragment"
  by (simp_all add: stub_def get_chat_model_def)

lemma ethics_topic: "10 \<le> length (strip (lit ''Exploring AI ethics and governance''))"
  by code_simp

lemma generate_stub:
  assumes "10 \<le> length (strip topic)" and "1 \<le> max_tweets" and "max_tweets \<le> 20"
  shows "\<exists>messages.
     generate_tweet_thread (stub (Inr ()) (Inr reply)) topic tone max_tweets add_numbering
         temperature =
       (case parse_tweet_response loads_fragment reply of
          Inl e \<Rightarrow> Inl (Exception e)
        | Inr tweets \<Rightarrow>
            (case enforce_values tweets add_numbering max_tweets of
               Inl e \<Rightarrow> Inl (Exception e)
             | Inr valid_tweets \<Rightarrow>
                 Inr \<lparr>res_tweets = valid_tweets, res_tweet_count = length valid_tweets,
                      res_tone = resolve_tone tone, res_topic = topic\<rparr>),
        [ModelRequested temperature, ModelInvoked messages, ModelReplied reply])"
  using generate_with_model [OF assms, of "stub (Inr ()) (Inr reply)" temperature "()" tone
      add_numbering]
  by simp

lemma generate_stub_silent:
  assumes "10 \<le> length (strip topic)" and "1 \<le> max_tweets" and "max_tweets \<le> 20"
  shows "\<exists>messages.
     generate_tweet_thread (stub (Inr ()) (Inl msg)) topic tone max_tweets add_numbering
         temperature =
       (Inl (Exception (ForeignError msg)), [ModelRequested temperature, ModelInvoked messages])"
  using generate_with_model [OF assms, of "stub (Inr ()) (Inl msg)" temperature "()" tone
      add_numbering]
  by simp

text \<open>
  A run with a model that replies with an array of three tweets.
\<close>

theorem result_invariant_witness:
  "fst (generate_tweet_thread
          (stub (Inr ()) (Inr (lit ''[\"Tweet about AI\",\"Another point\",\"Final thought\"]'')))
          (lit ''Exploring AI ethics and governance'') None 3 True (7 / 10))
     = Inr \<lparr>res_tweets = [JStr (lit ''[1/3] Tweet about AI''),
                           JStr (lit ''[2/3] Another point''),
                           JStr (lit ''[3/3] Final thought'')],
            res_tweet_count = 3,
            res_tone = lit ''engaging'',
            res_topic = lit ''Exploring AI ethics and governance''\<rparr>"
proof -
  let ?text = "lit ''[\"Tweet about AI\",\"Another point\",\"Final thought\"]''"
  let ?ss = "[lit ''Tweet about AI'', lit ''Another point'', lit ''Final thought'']"
  let ?c = "stub (Inr ()) (Inr ?text)"
  let ?topic = "lit ''Exploring AI ethics and governance''"
  have p: "parse_tweet_response (json_loads ?c) ?text = Inr (map JStr ?ss)"
    unfolding stub_simps by code_simp
  have e: "enforce ?ss True 3
             = [lit ''[1/3] Tweet about AI'', lit ''[2/3] Another point'',
                lit ''[3/3] Final thought'']"
    by code_simp
  have b: "length ?ss \<le> PY_SSIZE_T_MAX"
    by (simp add: PY_SSIZE_T_MAX_def)
  from generate_stub [OF ethics_topic, of 3 ?text None True "7 / 10"] p
  obtain r trace where run: "generate_tweet_thread ?c ?topic None 3 True (7 / 10) = (Inr r, trace)"
    and t: "ModelReplied ?text \<in> set trace"
    and r: "res_tone r = resolve_tone None" "res_topic r = ?topic"
    by (auto simp add: enforce_values_strings simp del: list.map)
  from result_invariant [OF run t p b]
  have "res_tweet_count r = length (res_tweets r)"
    and "res_tweets r = map JStr (enforce ?ss True 3)"
    by simp_all
  with r have "r = \<lparr>res_tweets = map JStr (enforce ?ss True 3), res_tweet_count = 3,
                    res_tone = lit ''engaging'', res_topic = ?topic\<rparr>"
    by (cases r) (simp add: resolve_tone_absent e)
  with run show ?thesis
    by (simp add: e)
qed

text \<open>
  A run with a model that replies with the empty array.
\<close>

theorem empty_reply_witness:
  "fst (generate_tweet_thread (stub (Inr ()) (Inr (lit ''[]'')))
          (lit ''Exploring AI ethics and governance'') None 5 True (7 / 10))
     = Inr \<lparr>res_tweets = [], res_tweet_count = 0, res_tone = lit ''engaging'',
            res_topic = lit ''Exploring AI ethics and governance''\<rparr>"
proof -
  let ?c = "stub (Inr ()) (Inr (lit ''[]''))"
  let ?topic = "lit ''Exploring AI ethics and governance''"
  have p: "parse_tweet_response (json_loads ?c) (lit ''[]'') = Inr []"
    unfolding stub_simps by code_simp
  from generate_stub [OF ethics_topic, of 5 "lit ''[]''" None True "7 / 10"]
  obtain res trace where run: "generate_tweet_thread ?c ?topic None 5 True (7 / 10) = (res, trace)"
    and t: "ModelReplied (lit ''[]'') \<in> set trace"
    by auto
  from empty_reply [OF run t p] run show ?thesis
    by (simp add: resolve_tone_absent)
qed

text \<open>
  Runs with a short topic, with a padded short topic and a bad count, with a bad
  count alone, and with a topic of 600 characters at temperature 5.
\<close>

theorem validation_errors_witness:
  "generate_tweet_thread (stub (Inr ()) (Inr [])) (lit ''short'') None 5 True (7 / 10)
     = (Inl (ValueError (lit ''Topic must be at least 10 characters long'')), [])
   \<and> generate_tweet_thread (stub (Inr ()) (Inr [])) (lit ''   short     '') None 25 True (7 / 10)
     = (Inl (ValueError (lit ''Topic must be at least 10 characters long'')), [])
   \<and> generate_tweet_thread (stub (Inr ()) (Inr []))
        (lit ''Exploring AI ethics and governance'') None 25 True (7 / 10)
     = (Inl (ValueError (lit ''max_tweets must be between 1 and 20'')), [])
   \<and> \<not> (\<exists>msg. fst (generate_tweet_thread (stub (Inr ()) (Inr []))
                       (replicate 600 120) None 5 True 5) = Inl (ValueError msg))"
proof -
  let ?c = "stub (Inr ()) (Inr [])"
  have a: "length (strip (lit ''short'')) < 10" and b: "length (strip (lit ''   short     '')) < 10"
    by code_simp+
  have d: "10 \<le> length (strip (lit ''Exploring AI ethics and governance'')) \<and> ((25::int) < 1 \<or> (20::int) < 25)"
    using ethics_topic by simp
  have "strip (replicate 600 120) = replicate 600 120"
    by (simp add: strip_def isspace_def dropWhile_replicate)
  then have f: "\<not> (length (strip (replicate 600 120)) < 10 \<or> (5::int) < 1 \<or> (20::int) < 5)"
    by simp
  from validation_errors [OF refl, of ?c "lit ''short''" None 5 True "7 / 10"] a
  have "generate_tweet_thread ?c (lit ''short'') None 5 True (7 / 10)
     = (Inl (ValueError (lit ''Topic must be at least 10 characters long'')), [])"
    by blast
  moreover from validation_errors [OF refl, of ?c "lit ''   short     ''" None 25 True "7 / 10"] b
  have "generate_tweet_thread ?c (lit ''   short     '') None 25 True (7 / 10)
     = (Inl (ValueError (lit ''Topic must be at least 10 characters long'')), [])"
    by blast
  moreover
  from validation_errors [OF refl, of ?c "lit ''Exploring AI ethics and governance''" None 25 True
      "7 / 10"] d
  have "generate_tweet_thread ?c (lit ''Exploring AI ethics and governance'') None 25 True (7 / 10)
     = (Inl (ValueError (lit ''max_tweets must be between 1 and 20'')), [])"
    by blast
  moreover from validation_errors [OF refl, of ?c "replicate 600 120" None 5 True 5] f
  have "\<not> (\<exists>msg. fst (generate_tweet_thread ?c (replicate 600 120) None 5 True 5)
                  = Inl (ValueError msg))"
    by blast
  ultimately show ?thesis
    by blast
qed

text \<open>
  Runs with a model whose \<open>invoke\<close> fails, with a reply that is no JSON, with a reply
  on which \<open>json.loads\<close> raises, and with a model that cannot be built.
\<close>

theorem failure_wrapping_witness:
  "fst (generate_tweet_thread (stub (Inr ()) (Inl (lit ''timeout'')))
          (lit ''Exploring AI ethics and governance'') None 5 True (7 / 10))
     = Inl (Exception (ForeignError (lit ''timeout'')))
   \<and> fst (generate_tweet_thread (stub (Inr ()) (Inr (lit ''not json at all'')))
          (lit ''Exploring AI ethics and governance'') None 5 True (7 / 10))
     = Inl (Exception (ValueError (lit ''Could not parse tweets from LLM response'')))
   \<and> fst (generate_tweet_thread
            (stub (Inr ()) (Inr (replicate 5000 49 @ lit '' [\"a\",\"b\"]'')))
            (lit ''Exploring AI ethics and governance'') None 5 True (7 / 10))
     = Inl (Exception (ForeignError digit_limit_error))
   \<and> generate_tweet_thread (stub (Inl (lit ''no API key'')) (Inr []))
          (lit ''Exploring AI ethics and governance'') None 5 True (7 / 10)
     = (Inl (ForeignError (lit ''no API key'')), [ModelRequested (7 / 10)])"
proof -
  let ?topic = "lit ''Exploring AI ethics and governance''"
  let ?digits = "replicate 5000 49 @ lit '' [\"a\",\"b\"]''"
  let ?silent = "stub (Inr ()) (Inl (lit ''timeout''))"
  let ?prose = "stub (Inr ()) (Inr (lit ''not json at all''))"
  let ?long = "stub (Inr ()) (Inr ?digits)"
  let ?absent = "stub (Inl (lit ''no API key'')) (Inr [])"
  from generate_stub_silent [OF ethics_topic, of 5 "lit ''timeout''" None True "7 / 10"]
  obtain messages where
    "ModelInvoked messages \<in> set (snd (generate_tweet_thread ?silent ?topic None 5 True (7 / 10)))"
    by auto
  with failure_wrapping [OF refl, where c = ?silent and temperature = "7 / 10" and model = "()"
      and messages = messages and topic = ?topic and tone = None and max_tweets = 5
      and add_numbering = True and msg = "lit ''timeout''"]
  have one: "fst (generate_tweet_thread ?silent ?topic None 5 True (7 / 10))
               = Inl (Exception (ForeignError (lit ''timeout'')))"
    by simp
  have "loads_fragment (lit ''not json at all'') = JSONDecodeError"
    by code_simp
  moreover have "bracket_span (lit ''not json at all'') = None"
    by (rule bracket_span_no_open) (simp add: lit_def)
  moreover
  from generate_stub [OF ethics_topic, of 5 "lit ''not json at all''" None True "7 / 10"]
  have "ModelReplied (lit ''not json at all'')
          \<in> set (snd (generate_tweet_thread ?prose ?topic None 5 True (7 / 10)))"
    by auto
  ultimately
  have two: "fst (generate_tweet_thread ?prose ?topic None 5 True (7 / 10))
               = Inl (Exception (ValueError (lit ''Could not parse tweets from LLM response'')))"
    using failure_wrapping [OF refl, where c = ?prose and temperature = "7 / 10"
        and topic = ?topic and tone = None and max_tweets = 5 and add_numbering = True
        and reply = "lit ''not json at all''"]
    by simp
  have "loads_fragment ?digits = Raises digit_limit_error"
    using loads_long_literal [of "lit ''[\"a\",\"b\"]''"] by (simp add: lit_def)
  moreover
  from generate_stub [OF ethics_topic, of 5 ?digits None True "7 / 10"]
  have "ModelReplied ?digits \<in> set (snd (generate_tweet_thread ?long ?topic None 5 True (7 / 10)))"
    by auto
  ultimately
  have three: "fst (generate_tweet_thread ?long ?topic None 5 True (7 / 10))
                 = Inl (Exception (ForeignError digit_limit_error))"
    using failure_wrapping [OF refl, where c = ?long and temperature = "7 / 10"
        and topic = ?topic and tone = None and max_tweets = 5 and add_numbering = True
        and reply = ?digits and raised = digit_limit_error]
    by simp
  have four: "generate_tweet_thread ?absent ?topic None 5 True (7 / 10)
                = (Inl (ForeignError (lit ''no API key'')), [ModelRequested (7 / 10)])"
    using failure_wrapping [OF refl, where c = ?absent and temperature = "7 / 10"
        and topic = ?topic and tone = None and max_tweets = 5 and add_numbering = True
        and msg = "lit ''no API key''"] ethics_topic
    by simp
  from one two three four show ?thesis
    by blast
qed

text \<open>
  C7 as stated fails: when the model cannot be built, the exception that leaves the
  run is neither a validation error nor an exception of the handler.
\<close>

theorem failure_wrapping_counterexample:
  "fst (generate_tweet_thread (stub (Inl (lit ''no API key'')) (Inr []))
          (lit ''Exploring AI ethics and governance'') None 5 True (7 / 10))
     = Inl (ForeignError (lit ''no API key''))
   \<and> \<not> validation_error (ForeignError (lit ''no API key''))
   \<and> \<not> generation_failure (ForeignError (lit ''no API key''))"
  using ethics_topic by (simp add: get_model_failure)

end
